theory Spec2Isabelle
  imports Main "HOL-Library.Sublist"
begin

section \<open>Python values used by the pipeline\<close>

text \<open>
  An exception is kept as what \<open>refresh\<close> reads from it: the name of its type
  (\<open>type(e).__name__\<close>), its message (\<open>str(e)\<close>) and the line of
  \<open>live_parking_norwich.py\<close> (or of \<open>helpers.py\<close>) whose statement raised it,
  which stands for \<open>e.__traceback__\<close>.
\<close>

datatype exc = Exc (exc_type: string) (exc_str: string) (exc_line: nat)

text \<open>A word between single quotes, as Python's messages print names.\<close>

definition quoted :: "string \<Rightarrow> string" where
  "quoted s = CHR 0x27 # s @ [CHR 0x27]"

definition no_attribute :: "string \<Rightarrow> string" where
  "no_attribute a = quoted ''NoneType'' @ '' object has no attribute '' @ quoted a"

text \<open>
  Modelled from the spec: \<open>structures.py\<close> (the named tuples \<open>RawCarPark\<close> and
  \<open>CarPark\<close>) is not among the sources. The fields are those of the spec's data model, in
  the positional order of the two constructor calls. A field read from an XML text node is
  \<open>None\<close> when the element has no text, so \<open>identity\<close> and \<open>status\<close> are optional
  strings. The float type is a parameter \<open>'f\<close>: the pipeline only carries it.
\<close>

record 'f RawCarPark =
  raw_identity :: "string option"
  raw_status :: "string option"
  raw_occupied_spaces :: int
  raw_total_capacity :: int
  raw_occupancy :: 'f

record 'f CarPark =
  code :: string
  name :: string
  status :: "string option"
  occupied_spaces :: int
  remaining_spaces :: int
  total_capacity :: int
  occupancy :: 'f

section \<open>The two regular-expression substitutions\<close>

text \<open>
  Python's \<open>\w\<close> on a \<open>str\<close> pattern is \<open>[A-Za-z0-9_]\<close> on ASCII and the Unicode
  alphanumerics beyond it. Characters here are 8-bit; which of the characters above 127 are
  alphanumeric is the parameter \<open>uw\<close>.
\<close>

definition ascii_word :: "char \<Rightarrow> bool" where
  "ascii_word c =
     (let n = (of_char c :: nat)
      in (48 \<le> n \<and> n \<le> 57) \<or> (65 \<le> n \<and> n \<le> 90) \<or> (97 \<le> n \<and> n \<le> 122) \<or> n = 95)"

definition is_word :: "(char \<Rightarrow> bool) \<Rightarrow> char \<Rightarrow> bool" where
  "is_word uw c = (if (of_char c :: nat) < 128 then ascii_word c else uw c)"

text \<open>
  \<open>\b\<close> right after a match that ends in a word character (both patterns end in a letter):
  the rest of the string is empty or starts with a character that is not a word character.
\<close>

definition word_boundary :: "(char \<Rightarrow> bool) \<Rightarrow> string \<Rightarrow> bool" where
  "word_boundary uw rest = (case rest of [] \<Rightarrow> True | c # _ \<Rightarrow> \<not> is_word uw c)"

text \<open>
  \<open>Nor(?:wic)?\b\<close> tried at the start of \<open>s\<close>: the optional group is greedy, so
  \<open>Norwic\<close> is tried first and \<open>Nor\<close> on backtracking. The result is the length of the
  match.
\<close>

definition match_nor :: "(char \<Rightarrow> bool) \<Rightarrow> string \<Rightarrow> nat option" where
  "match_nor uw s =
     (if prefix ''Norwic'' s \<and> word_boundary uw (drop 6 s) then Some 6
      else if prefix ''Nor'' s \<and> word_boundary uw (drop 3 s) then Some 3
      else None)"

text \<open>\<open>NORW\b\<close> tried at the start of \<open>s\<close>.\<close>

definition match_norw :: "(char \<Rightarrow> bool) \<Rightarrow> string \<Rightarrow> nat option" where
  "match_norw uw s =
     (if prefix ''NORW'' s \<and> word_boundary uw (drop 4 s) then Some 4 else None)"

text \<open>
  \<open>re.sub(pattern, repl, string)\<close> for a pattern that matches no empty string and a
  replacement without group references: scan from the left; where the pattern matches,
  emit the replacement and go on after the match; elsewhere copy one character.
  \<open>m\<close> gives the length of the match at the start of its argument.
\<close>

fun re_sub :: "(string \<Rightarrow> nat option) \<Rightarrow> string \<Rightarrow> string \<Rightarrow> string" where
  "re_sub m repl [] = []"
| "re_sub m repl (c # cs) =
     (case m (c # cs) of
        None \<Rightarrow> c # re_sub m repl cs
      | Some n \<Rightarrow> repl @ re_sub m repl (drop (n - 1) cs))"

definition sub_nor :: "(char \<Rightarrow> bool) \<Rightarrow> string \<Rightarrow> string" where
  "sub_nor uw s = re_sub (match_nor uw) ''Norwich'' s"

definition sub_norw :: "(char \<Rightarrow> bool) \<Rightarrow> string \<Rightarrow> string" where
  "sub_norw uw s = re_sub (match_norw uw) ''NORWICH'' s"

text \<open>The name repair of lines 152-153: the two substitutions, in the source's order.\<close>

definition name_repair :: "(char \<Rightarrow> bool) \<Rightarrow> string \<Rightarrow> string" where
  "name_repair uw s = sub_norw uw (sub_nor uw s)"

section \<open>The transformer\<close>

text \<open>\<open>str.split(sep)\<close> for a separator of one character.\<close>

fun split_sep :: "char \<Rightarrow> string \<Rightarrow> string list" where
  "split_sep sep [] = [[]]"
| "split_sep sep (c # cs) =
     (if c = sep then [] # split_sep sep cs
      else (case split_sep sep cs of [] \<Rightarrow> [[c]] | p # ps \<Rightarrow> (c # p) # ps))"

text \<open>
  One pass of the loop body of \<open>_transform_data_to_car_parks\<close> (lines 147-159).
  \<open>None.split\<close> raises AttributeError; \<open>identity_parts[1]\<close> raises IndexError when
  the split has fewer than two parts.
\<close>

definition transform_record :: "(char \<Rightarrow> bool) \<Rightarrow> 'f RawCarPark \<Rightarrow> exc + 'f CarPark" where
  "transform_record uw d =
     (case raw_identity d of
        None \<Rightarrow> Inl (Exc ''AttributeError'' (no_attribute ''split'') 147)
      | Some ident \<Rightarrow>
          (let identity_parts = split_sep CHR '':'' ident
           in if length identity_parts < 2
              then Inl (Exc ''IndexError'' ''list index out of range'' 148)
              else
                (let code_v = identity_parts ! 1;
                     name_v = identity_parts ! 0;
                     name_v = sub_nor uw name_v;
                     name_v = sub_norw uw name_v;
                     remaining = raw_total_capacity d - raw_occupied_spaces d
                 in Inr \<lparr>code = code_v, name = name_v, status = raw_status d,
                          occupied_spaces = raw_occupied_spaces d,
                          remaining_spaces = remaining,
                          total_capacity = raw_total_capacity d,
                          occupancy = raw_occupancy d\<rparr>)))"

text \<open>
  The loop of \<open>LiveParkingNorwich._transform_data_to_car_parks\<close>: \<open>car_parks\<close> is the list
  built so far, each record is appended to it, and the first exception ends the loop.
\<close>

fun transform_loop ::
  "(char \<Rightarrow> bool) \<Rightarrow> 'f CarPark list \<Rightarrow> 'f RawCarPark list \<Rightarrow> exc + 'f CarPark list" where
  "transform_loop uw car_parks [] = Inr car_parks"
| "transform_loop uw car_parks (d # ds) =
     (case transform_record uw d of
        Inl e \<Rightarrow> Inl e
      | Inr c \<Rightarrow> transform_loop uw (car_parks @ [c]) ds)"

definition transform_data_to_car_parks ::
  "(char \<Rightarrow> bool) \<Rightarrow> 'f RawCarPark list \<Rightarrow> exc + 'f CarPark list" where
  "transform_data_to_car_parks uw car_park_data = transform_loop uw [] car_park_data"

text \<open>
  \<open>CarParkTransformer.transform_data_to_car_parks\<close> of \<open>helpers.py\<close> (lines 88-107): the
  same statements, at lines 93 and 94.
\<close>

definition helpers_transform_record ::
  "(char \<Rightarrow> bool) \<Rightarrow> 'f RawCarPark \<Rightarrow> exc + 'f CarPark" where
  "helpers_transform_record uw d =
     (case raw_identity d of
        None \<Rightarrow> Inl (Exc ''AttributeError'' (no_attribute ''split'') 93)
      | Some ident \<Rightarrow>
          (let identity_parts = split_sep CHR '':'' ident
           in if length identity_parts < 2
              then Inl (Exc ''IndexError'' ''list index out of range'' 94)
              else
                (let code_v = identity_parts ! 1;
                     name_v = identity_parts ! 0;
                     name_v = sub_nor uw name_v;
                     name_v = sub_norw uw name_v;
                     remaining = raw_total_capacity d - raw_occupied_spaces d
                 in Inr \<lparr>code = code_v, name = name_v, status = raw_status d,
                          occupied_spaces = raw_occupied_spaces d,
                          remaining_spaces = remaining,
                          total_capacity = raw_total_capacity d,
                          occupancy = raw_occupancy d\<rparr>)))"

fun helpers_transform_loop ::
  "(char \<Rightarrow> bool) \<Rightarrow> 'f CarPark list \<Rightarrow> 'f RawCarPark list \<Rightarrow> exc + 'f CarPark list" where
  "helpers_transform_loop uw car_parks [] = Inr car_parks"
| "helpers_transform_loop uw car_parks (d # ds) =
     (case helpers_transform_record uw d of
        Inl e \<Rightarrow> Inl e
      | Inr c \<Rightarrow> helpers_transform_loop uw (car_parks @ [c]) ds)"

definition CarParkTransformer_transform_data_to_car_parks ::
  "(char \<Rightarrow> bool) \<Rightarrow> 'f RawCarPark list \<Rightarrow> exc + 'f CarPark list" where
  "CarParkTransformer_transform_data_to_car_parks uw car_park_data =
     helpers_transform_loop uw [] car_park_data"

section \<open>The XML tree and the path queries\<close>

text \<open>
  An element of \<open>xml.etree.ElementTree\<close>: its tag (\<open>{uri}local\<close> for a namespaced
  name), its text (\<open>None\<close> when the element has no text before its first child) and its
  children in document order.
\<close>

datatype xml = Element (elem_tag: string) (elem_text: "string option") (elem_children: "xml list")

text \<open>\<open>Element.iter()\<close>: the element, then its descendants, in document order.\<close>

fun elem_iter :: "xml \<Rightarrow> xml list" where
  "elem_iter (Element t x cs) = Element t x cs # concat (map elem_iter cs)"

text \<open>
  The step \<open>.//\<close> of a path: every element of \<open>elem.iter()\<close> but \<open>elem\<close> itself,
  which is the first one.
\<close>

definition descendants :: "xml \<Rightarrow> xml list" where
  "descendants e = concat (map elem_iter (elem_children e))"

text \<open>
  ElementPath resolves the prefix of \<open>d2lm:local\<close> in the namespace mapping to
  \<open>{uri}local\<close> and raises SyntaxError when the mapping has no such prefix.
  \<open>Config.XML_NAMESPACE\<close> is not among the sources: the mapping is a parameter.
\<close>

definition qname :: "(string \<rightharpoonup> string) \<Rightarrow> string \<Rightarrow> nat \<Rightarrow> exc + string" where
  "qname namespace local line =
     (case namespace ''d2lm'' of
        None \<Rightarrow>
          Inl (Exc ''SyntaxError'' (''prefix '' @ quoted ''d2lm'' @ '' not found in prefix map'') line)
      | Some uri \<Rightarrow> Inr (''{'' @ uri @ ''}'' @ local))"

text \<open>
  How a step of a path selects by the resolved tag \<open>t\<close> (\<open>prepare_child\<close> and
  \<open>prepare_descendant\<close> of ElementPath): a tag that starts with \<open>{*}\<close> stands for the
  name in any namespace or in none, a tag that starts with \<open>{}\<close> for the name without
  namespace, and any other tag is compared by equality. The local names of this program end
  in a letter, so the wildcard \<open>}*\<close> for "any name" cannot arise.
\<close>

definition tag_selects :: "string \<Rightarrow> string \<Rightarrow> bool" where
  "tag_selects t el_tag =
     (if take 3 t = ''{*}'' then el_tag = drop 3 t \<or> suffix (drop 2 t) el_tag
      else if take 2 t = ''{}'' then el_tag = drop 2 t
      else el_tag = t)"

text \<open>\<open>elem.find("d2lm:local", namespace)\<close>: the first child with that tag, or \<open>None\<close>.\<close>

definition find_child ::
  "(string \<rightharpoonup> string) \<Rightarrow> string \<Rightarrow> nat \<Rightarrow> xml \<Rightarrow> exc + xml option" where
  "find_child namespace local line e =
     (case qname namespace local line of
        Inl x \<Rightarrow> Inl x
      | Inr t \<Rightarrow> Inr (find (\<lambda>c. tag_selects t (elem_tag c)) (elem_children e)))"

text \<open>\<open>elem.findall("d2lm:local", namespace)\<close>: the children with that tag, in order.\<close>

definition findall_children ::
  "(string \<rightharpoonup> string) \<Rightarrow> string \<Rightarrow> nat \<Rightarrow> xml \<Rightarrow> exc + xml list" where
  "findall_children namespace local line e =
     (case qname namespace local line of
        Inl x \<Rightarrow> Inl x
      | Inr t \<Rightarrow> Inr (filter (\<lambda>c. tag_selects t (elem_tag c)) (elem_children e)))"

text \<open>\<open>root.find(".//d2lm:local", namespace)\<close>: the first descendant with that tag.\<close>

definition find_descendant ::
  "(string \<rightharpoonup> string) \<Rightarrow> string \<Rightarrow> nat \<Rightarrow> xml \<Rightarrow> exc + xml option" where
  "find_descendant namespace local line e =
     (case qname namespace local line of
        Inl x \<Rightarrow> Inl x
      | Inr t \<Rightarrow> Inr (find (\<lambda>c. tag_selects t (elem_tag c)) (descendants e)))"

text \<open>
  \<open>root.findall(".//d2lm:payloadPublication/d2lm:situation", namespace)\<close>: for each
  descendant \<open>payloadPublication\<close>, in the order of \<open>iter\<close>, its \<open>situation\<close> children.
\<close>

definition findall_situations ::
  "(string \<rightharpoonup> string) \<Rightarrow> nat \<Rightarrow> xml \<Rightarrow> exc + xml list" where
  "findall_situations namespace line root =
     (case qname namespace ''payloadPublication'' line of
        Inl x \<Rightarrow> Inl x
      | Inr pp \<Rightarrow>
          (case qname namespace ''situation'' line of
             Inl x \<Rightarrow> Inl x
           | Inr sit \<Rightarrow>
               Inr (concat (map (\<lambda>p. filter (\<lambda>c. tag_selects sit (elem_tag c))
                                           (elem_children p))
                                (filter (\<lambda>d. tag_selects pp (elem_tag d))
                                   (descendants root))))))"

text \<open>\<open>.text\<close> of the result of a \<open>find\<close>: AttributeError on \<open>None\<close>.\<close>

definition text_of :: "xml option \<Rightarrow> nat \<Rightarrow> exc + string option" where
  "text_of r line =
     (case r of
        None \<Rightarrow> Inl (Exc ''AttributeError'' (no_attribute ''text'') line)
      | Some e \<Rightarrow> Inr (elem_text e))"

section \<open>What the program calls and does not define\<close>

text \<open>
  The outcome of \<open>urlopen(url)\<close> and \<open>response.read()\<close>: the body, a \<open>URLError\<close> with
  its reason printed, or any other exception.
\<close>

datatype urlopen_result = Response string | URLError_raised string | Raised exc

text \<open>
  The library functions are parameters. A conversion gives either its value or the message
  of the ValueError (for \<open>fromstring\<close>, of the ParseError) it raises.
  \<open>strptime\<close> is \<open>datetime.strptime\<close> with \<open>Config.DATE_FORMAT\<close>, which is not among
  the sources. \<open>format_tb\<close> is \<open>traceback.format_tb\<close> applied to the exception's
  traceback.
\<close>

record ('f, 't) world =
  urlopen :: "string \<Rightarrow> urlopen_result"
  fromstring :: "string \<Rightarrow> string + xml"
  py_int :: "string \<Rightarrow> string + int"
  py_float :: "string \<Rightarrow> string + 'f"
  strptime :: "string \<Rightarrow> string + 't"
  unicode_alnum :: "char \<Rightarrow> bool"
  format_tb :: "exc \<Rightarrow> string list"

text \<open>\<open>Config.XML_URL\<close> and \<open>Config.XML_NAMESPACE\<close>, read by \<open>__init__\<close>.\<close>

record config =
  XML_URL :: string
  XML_NAMESPACE :: "string \<rightharpoonup> string"

definition bind_exc :: "exc + 'a \<Rightarrow> ('a \<Rightarrow> exc + 'b) \<Rightarrow> exc + 'b" where
  "bind_exc m f = (case m of Inl e \<Rightarrow> Inl e | Inr x \<Rightarrow> f x)"

text \<open>\<open>int(text)\<close>, \<open>float(text)\<close> and \<open>strptime(text, format)\<close>: TypeError on \<open>None\<close>.\<close>

definition to_int :: "('f, 't) world \<Rightarrow> string option \<Rightarrow> nat \<Rightarrow> exc + int" where
  "to_int W txt line =
     (case txt of
        None \<Rightarrow>
          Inl (Exc ''TypeError''
                 (''int() argument must be a string, a bytes-like object or a real number, not ''
                    @ quoted ''NoneType'') line)
      | Some s \<Rightarrow>
          (case py_int W s of Inl m \<Rightarrow> Inl (Exc ''ValueError'' m line) | Inr n \<Rightarrow> Inr n))"

definition to_float :: "('f, 't) world \<Rightarrow> string option \<Rightarrow> nat \<Rightarrow> exc + 'f" where
  "to_float W txt line =
     (case txt of
        None \<Rightarrow>
          Inl (Exc ''TypeError''
                 (''float() argument must be a string or a real number, not ''
                    @ quoted ''NoneType'') line)
      | Some s \<Rightarrow>
          (case py_float W s of Inl m \<Rightarrow> Inl (Exc ''ValueError'' m line) | Inr x \<Rightarrow> Inr x))"

definition to_datetime :: "('f, 't) world \<Rightarrow> string option \<Rightarrow> nat \<Rightarrow> exc + 't" where
  "to_datetime W txt line =
     (case txt of
        None \<Rightarrow> Inl (Exc ''TypeError'' ''strptime() argument 1 must be str, not None'' line)
      | Some s \<Rightarrow>
          (case strptime W s of Inl m \<Rightarrow> Inl (Exc ''ValueError'' m line) | Inr x \<Rightarrow> Inr x))"

section \<open>The fetcher\<close>

text \<open>
  \<open>_retrieve_xml_data\<close> (lines 89-94): a URLError is caught and raised again with the
  URL in its message; \<open>str\<close> of a URLError is \<open><urlopen error reason>\<close>. Any other
  exception passes.
\<close>

definition retrieve_xml_data :: "('f, 't) world \<Rightarrow> string \<Rightarrow> exc + string" where
  "retrieve_xml_data W url =
     (case urlopen W url of
        Response xml_data \<Rightarrow> Inr xml_data
      | URLError_raised reason \<Rightarrow>
          Inl (Exc ''URLError''
                 (''<urlopen error Failed to retrieve XML data from '' @ url @ '': '' @ reason @ ''>'')
                 94)
      | Raised e \<Rightarrow> Inl e)"

section \<open>The parser\<close>

text \<open>The body of the inner loop of \<open>_parse_xml_data\<close> (lines 121-127).\<close>

definition parse_situation_record ::
  "('f, 't) world \<Rightarrow> (string \<rightharpoonup> string) \<Rightarrow> xml \<Rightarrow> exc + 'f RawCarPark" where
  "parse_situation_record W namespace situation_record =
     bind_exc (bind_exc (find_child namespace ''carParkIdentity'' 121 situation_record)
                 (\<lambda>r. text_of r 121)) (\<lambda>identity_v.
     bind_exc (bind_exc (find_child namespace ''carParkStatus'' 122 situation_record)
                 (\<lambda>r. text_of r 122)) (\<lambda>status_v.
     bind_exc (bind_exc (bind_exc (find_child namespace ''occupiedSpaces'' 123 situation_record)
                 (\<lambda>r. text_of r 123)) (\<lambda>t. to_int W t 123)) (\<lambda>occupied_v.
     bind_exc (bind_exc (bind_exc (find_child namespace ''totalCapacity'' 124 situation_record)
                 (\<lambda>r. text_of r 124)) (\<lambda>t. to_int W t 124)) (\<lambda>total_v.
     bind_exc (bind_exc (bind_exc (find_child namespace ''carParkOccupancy'' 125 situation_record)
                 (\<lambda>r. text_of r 125)) (\<lambda>t. to_float W t 125)) (\<lambda>occupancy_v.
       Inr \<lparr>raw_identity = identity_v, raw_status = status_v,
             raw_occupied_spaces = occupied_v, raw_total_capacity = total_v,
             raw_occupancy = occupancy_v\<rparr>)))))"

text \<open>The inner loop (line 118), over the records of one situation.\<close>

fun parse_records ::
  "('f, 't) world \<Rightarrow> (string \<rightharpoonup> string) \<Rightarrow> 'f RawCarPark list \<Rightarrow> xml list
     \<Rightarrow> exc + 'f RawCarPark list" where
  "parse_records W namespace car_park_data [] = Inr car_park_data"
| "parse_records W namespace car_park_data (sr # srs) =
     (case parse_situation_record W namespace sr of
        Inl e \<Rightarrow> Inl e
      | Inr r \<Rightarrow> parse_records W namespace (car_park_data @ [r]) srs)"

text \<open>The outer loop (line 117), over the situations.\<close>

fun parse_situations ::
  "('f, 't) world \<Rightarrow> (string \<rightharpoonup> string) \<Rightarrow> 'f RawCarPark list \<Rightarrow> xml list
     \<Rightarrow> exc + 'f RawCarPark list" where
  "parse_situations W namespace car_park_data [] = Inr car_park_data"
| "parse_situations W namespace car_park_data (situation # situations) =
     (case findall_children namespace ''situationRecord'' 118 situation of
        Inl e \<Rightarrow> Inl e
      | Inr srs \<Rightarrow>
          (case parse_records W namespace car_park_data srs of
             Inl e \<Rightarrow> Inl e
           | Inr car_park_data' \<Rightarrow> parse_situations W namespace car_park_data' situations))"

text \<open>\<open>_parse_xml_data\<close> (lines 108-129).\<close>

definition parse_xml_data ::
  "('f, 't) world \<Rightarrow> string \<Rightarrow> (string \<rightharpoonup> string) \<Rightarrow> exc + ('f RawCarPark list \<times> 't)" where
  "parse_xml_data W xml_data namespace =
     (case fromstring W xml_data of
        Inl m \<Rightarrow> Inl (Exc ''ParseError'' m 108)
      | Inr root \<Rightarrow>
          bind_exc (bind_exc (find_descendant namespace ''publicationTime'' 111 root)
                      (\<lambda>r. text_of r 111)) (\<lambda>publication_time.
          bind_exc (to_datetime W publication_time 112) (\<lambda>last_updated_v.
          bind_exc (findall_situations namespace 117 root) (\<lambda>situations.
          bind_exc (parse_situations W namespace [] situations) (\<lambda>car_park_data.
            Inr (car_park_data, last_updated_v))))))"

section \<open>The orchestrator\<close>

text \<open>
  The value of the attribute \<open>__traceback\<close>: \<open>None\<close> after \<open>__init__\<close>, the string
  assigned at line 185, or the list that \<open>format_tb\<close> returns at line 195.
\<close>

datatype traceback_value = TbNone | TbStr string | TbList "string list"

text \<open>The four private attributes; \<open>None\<close> after \<open>__init__\<close>.\<close>

record 't state =
  last_updated :: "'t option"
  success :: "bool option"
  error_message :: "string option"
  traceback :: traceback_value

definition init :: "'t state" where
  "init = \<lparr>last_updated = None, success = None, error_message = None, traceback = TbNone\<rparr>"

text \<open>The handler of \<open>refresh\<close> (lines 190-198).\<close>

definition set_failure ::
  "('f, 't) world \<Rightarrow> exc \<Rightarrow> 't state \<Rightarrow> 'f CarPark list \<times> 't state" where
  "set_failure W e s =
     ([], s\<lparr>success := Some False,
            error_message := Some (exc_type e @ '': '' @ exc_str e),
            traceback := TbList (format_tb W e)\<rparr>)"

text \<open>
  \<open>refresh\<close> (lines 171-198): the returned list and the attributes after the call.
  \<open>__last_updated\<close> is assigned by the statement of line 177, once the parser has returned.
\<close>

definition refresh ::
  "('f, 't) world \<Rightarrow> config \<Rightarrow> 't state \<Rightarrow> 'f CarPark list \<times> 't state" where
  "refresh W C s =
     (case retrieve_xml_data W (XML_URL C) of
        Inl e \<Rightarrow> set_failure W e s
      | Inr xml_v \<Rightarrow>
          (case parse_xml_data W xml_v (XML_NAMESPACE C) of
             Inl e \<Rightarrow> set_failure W e s
           | Inr (car_park_data, lu) \<Rightarrow>
               (let s1 = s\<lparr>last_updated := Some lu\<rparr>
                in case transform_data_to_car_parks (unicode_alnum W) car_park_data of
                     Inl e \<Rightarrow> set_failure W e s1
                   | Inr car_parks \<Rightarrow>
                       (car_parks,
                        s1\<lparr>success := Some True, error_message := Some [],
                           traceback := TbStr []\<rparr>))))"

section \<open>The specification's wording, for comparison\<close>

text \<open>
  The repair as the specification words it: a trailing \<open>Nor\<close> or \<open>Norwic\<close> becomes
  \<open>Norwich\<close>, then a trailing \<open>NORW\<close> becomes \<open>NORWICH\<close>. At the end of a string the
  word boundary after the pattern always holds.
\<close>

definition trailing_nor :: "string \<Rightarrow> string" where
  "trailing_nor w =
     (if suffix ''Norwic'' w then w @ ''h'' else if suffix ''Nor'' w then w @ ''wich'' else w)"

definition trailing_norw :: "string \<Rightarrow> string" where
  "trailing_norw w = (if suffix ''NORW'' w then w @ ''ICH'' else w)"




text \<open>
  The feed as the specification reads it, for a namespace URI \<open>uri\<close>: the qualified tag,
  the first child with a tag, the \<open>situation\<close> elements under the payload path, and the
  \<open>situationRecord\<close> elements in the order "outer situation order, then inner
  situationRecord order within each".
\<close>

definition qtag :: "string \<Rightarrow> string \<Rightarrow> string" where
  "qtag uri local = ''{'' @ uri @ ''}'' @ local"

definition child :: "string \<Rightarrow> string \<Rightarrow> xml \<Rightarrow> xml option" where
  "child uri local e = find (\<lambda>c. elem_tag c = qtag uri local) (elem_children e)"

definition children_named :: "string \<Rightarrow> string \<Rightarrow> xml \<Rightarrow> xml list" where
  "children_named uri local e = filter (\<lambda>c. elem_tag c = qtag uri local) (elem_children e)"

definition situations :: "string \<Rightarrow> xml \<Rightarrow> xml list" where
  "situations uri root =
     concat (map (children_named uri ''situation'')
               (filter (\<lambda>d. elem_tag d = qtag uri ''payloadPublication'') (descendants root)))"

definition situation_records :: "string \<Rightarrow> xml \<Rightarrow> xml list" where
  "situation_records uri root =
     concat (map (children_named uri ''situationRecord'') (situations uri root))"

text \<open>
  No \<open>payloadPublication\<close> element lies inside another one (the schema has a single one,
  under the root); and the records under one such element.
\<close>

definition is_payload :: "string \<Rightarrow> xml \<Rightarrow> bool" where
  "is_payload uri e = (elem_tag e = qtag uri ''payloadPublication'')"

definition records_under :: "string \<Rightarrow> xml \<Rightarrow> xml list" where
  "records_under uri p =
     concat (map (children_named uri ''situationRecord'') (children_named uri ''situation'' p))"

definition payloads_not_nested :: "string \<Rightarrow> xml \<Rightarrow> bool" where
  "payloads_not_nested uri root =
     list_all (\<lambda>p. filter (is_payload uri) (descendants p) = [])
       (filter (is_payload uri) (descendants root))"

text \<open>The publication time of the feed: the text of the first \<open>publicationTime\<close> element.\<close>

definition publication_time :: "string \<Rightarrow> xml \<Rightarrow> string option" where
  "publication_time uri root =
     (case find (\<lambda>c. elem_tag c = qtag uri ''publicationTime'') (descendants root) of
        None \<Rightarrow> None
      | Some e \<Rightarrow> elem_text e)"

text \<open>
  The text of a required child, and the value of a numeric child: \<open>None\<close> when the child is
  missing, has no text, or has a text that the conversion refuses.
\<close>

definition field_text :: "string \<Rightarrow> string \<Rightarrow> xml \<Rightarrow> string option" where
  "field_text uri local sr = (case child uri local sr of None \<Rightarrow> None | Some c \<Rightarrow> elem_text c)"

definition int_field :: "('f, 't) world \<Rightarrow> string \<Rightarrow> string \<Rightarrow> xml \<Rightarrow> int option" where
  "int_field W uri local sr =
     (case field_text uri local sr of
        None \<Rightarrow> None
      | Some t \<Rightarrow> (case py_int W t of Inl m \<Rightarrow> None | Inr n \<Rightarrow> Some n))"

definition float_field :: "('f, 't) world \<Rightarrow> string \<Rightarrow> string \<Rightarrow> xml \<Rightarrow> 'f option" where
  "float_field W uri local sr =
     (case field_text uri local sr of
        None \<Rightarrow> None
      | Some t \<Rightarrow> (case py_float W t of Inl m \<Rightarrow> None | Inr x \<Rightarrow> Some x))"

text \<open>
  A record with its five required children, the numeric ones with valid values; and a record
  that misses a required child or has a numeric field without a valid value.
\<close>

definition well_formed_record :: "('f, 't) world \<Rightarrow> string \<Rightarrow> xml \<Rightarrow> bool" where
  "well_formed_record W uri sr =
     (child uri ''carParkIdentity'' sr \<noteq> None \<and>
      child uri ''carParkStatus'' sr \<noteq> None \<and>
      int_field W uri ''occupiedSpaces'' sr \<noteq> None \<and>
      int_field W uri ''totalCapacity'' sr \<noteq> None \<and>
      float_field W uri ''carParkOccupancy'' sr \<noteq> None)"

definition malformed_record :: "('f, 't) world \<Rightarrow> string \<Rightarrow> xml \<Rightarrow> bool" where
  "malformed_record W uri sr =
     (child uri ''carParkIdentity'' sr = None \<or>
      child uri ''carParkStatus'' sr = None \<or>
      child uri ''occupiedSpaces'' sr = None \<or>
      child uri ''totalCapacity'' sr = None \<or>
      child uri ''carParkOccupancy'' sr = None \<or>
      int_field W uri ''occupiedSpaces'' sr = None \<or>
      int_field W uri ''totalCapacity'' sr = None \<or>
      float_field W uri ''carParkOccupancy'' sr = None)"

text \<open>The raw record \<open>r\<close> carries the fields of the element \<open>sr\<close>.\<close>

definition record_of :: "('f, 't) world \<Rightarrow> string \<Rightarrow> xml \<Rightarrow> 'f RawCarPark \<Rightarrow> bool" where
  "record_of W uri sr r =
     (raw_identity r = field_text uri ''carParkIdentity'' sr \<and>
      raw_status r = field_text uri ''carParkStatus'' sr \<and>
      int_field W uri ''occupiedSpaces'' sr = Some (raw_occupied_spaces r) \<and>
      int_field W uri ''totalCapacity'' sr = Some (raw_total_capacity r) \<and>
      float_field W uri ''carParkOccupancy'' sr = Some (raw_occupancy r))"

text \<open>
  A namespace URI for which a path selects by equality of tags: not empty and not starting
  with \<open>}\<close> (the resolved tag would start with \<open>{}\<close>), and neither \<open>*\<close> nor starting
  with \<open>*}\<close> (it would start with \<open>{*}\<close>).
\<close>

definition plain_uri :: "string \<Rightarrow> bool" where
  "plain_uri uri =
     (uri \<noteq> [] \<and> take 1 uri \<noteq> ''}'' \<and> uri \<noteq> ''*'' \<and> take 2 uri \<noteq> ''*}'')"

text \<open>The namespace mapping binds the prefix \<open>d2lm\<close> to the plain URI \<open>uri\<close>.\<close>

definition binds_d2lm :: "(string \<rightharpoonup> string) \<Rightarrow> string \<Rightarrow> bool" where
  "binds_d2lm namespace uri = (namespace ''d2lm'' = Some uri \<and> plain_uri uri)"

text \<open>The identity of a raw record is a string with at least one colon.\<close>

definition has_colon :: "'f RawCarPark \<Rightarrow> bool" where
  "has_colon d = (case raw_identity d of None \<Rightarrow> False | Some i \<Rightarrow> CHR '':'' \<in> set i)"

text \<open>
  The exception that the statements of the \<open>try\<close> block of \<open>refresh\<close> (lines 174-180)
  raise, if any, and the timestamp that line 177 assigns, if it is reached.
\<close>

definition raised_in_try :: "('f, 't) world \<Rightarrow> config \<Rightarrow> exc option" where
  "raised_in_try W C =
     (case retrieve_xml_data W (XML_URL C) of
        Inl e \<Rightarrow> Some e
      | Inr xml_v \<Rightarrow>
          (case parse_xml_data W xml_v (XML_NAMESPACE C) of
             Inl e \<Rightarrow> Some e
           | Inr (car_park_data, lu) \<Rightarrow>
               (case transform_data_to_car_parks (unicode_alnum W) car_park_data of
                  Inl e \<Rightarrow> Some e
                | Inr car_parks \<Rightarrow> None)))"

definition parsed_timestamp :: "('f, 't) world \<Rightarrow> config \<Rightarrow> 't option" where
  "parsed_timestamp W C =
     (case retrieve_xml_data W (XML_URL C) of
        Inl e \<Rightarrow> None
      | Inr xml_v \<Rightarrow>
          (case parse_xml_data W xml_v (XML_NAMESPACE C) of
             Inl e \<Rightarrow> None
           | Inr (car_park_data, lu) \<Rightarrow> Some lu))"

section \<open>Concrete inputs\<close>

text \<open>A word class in which no character beyond ASCII is alphanumeric.\<close>

definition ascii_only :: "char \<Rightarrow> bool" where
  "ascii_only c = False"

text \<open>
  Stand-ins for the library: \<open>int\<close> on decimal digits, \<open>float\<close> and \<open>strptime\<close> keeping
  the literal they accept, and a one-line traceback.
\<close>

definition digit_val :: "char \<Rightarrow> nat option" where
  "digit_val c =
     (let n = (of_char c :: nat) in if 48 \<le> n \<and> n \<le> 57 then Some (n - 48) else None)"

fun decimal :: "nat \<Rightarrow> string \<Rightarrow> nat option" where
  "decimal acc [] = Some acc"
| "decimal acc (c # cs) =
     (case digit_val c of None \<Rightarrow> None | Some v \<Rightarrow> decimal (10 * acc + v) cs)"

definition demo_int :: "string \<Rightarrow> string + int" where
  "demo_int s =
     (case (if s = [] then None else decimal 0 s) of
        None \<Rightarrow> Inl (''invalid literal for int() with base 10: '' @ quoted s)
      | Some n \<Rightarrow> Inr (int n))"

definition float_char :: "char \<Rightarrow> bool" where
  "float_char c = (digit_val c \<noteq> None \<or> c = CHR ''.'')"

definition demo_float :: "string \<Rightarrow> string + string" where
  "demo_float s =
     (if s \<noteq> [] \<and> list_all float_char s then Inr s
      else Inl (''could not convert string to float: '' @ quoted s))"

definition time_char :: "char \<Rightarrow> bool" where
  "time_char c = (digit_val c \<noteq> None \<or> c = CHR ''-'' \<or> c = CHR '':'' \<or> c = CHR ''T'')"

definition demo_strptime :: "string \<Rightarrow> string + string" where
  "demo_strptime s =
     (if length s = 19 \<and> list_all time_char s then Inr s
      else Inl (''time data '' @ quoted s @ '' does not match format''))"

definition demo_format_tb :: "exc \<Rightarrow> string list" where
  "demo_format_tb e = [''  File live_parking_norwich.py, in refresh'', ''    raise '' @ exc_type e]"

definition always :: "'a \<Rightarrow> 'b \<Rightarrow> 'a" where
  "always r x = r"

text \<open>A world in which \<open>urlopen\<close> has the outcome \<open>r\<close> and the body parses to \<open>root\<close>.\<close>

definition demo_world :: "urlopen_result \<Rightarrow> string + xml \<Rightarrow> (string, string) world" where
  "demo_world r root =
     \<lparr>urlopen = always r, fromstring = always root, py_int = demo_int, py_float = demo_float,
      strptime = demo_strptime, unicode_alnum = ascii_only, format_tb = demo_format_tb\<rparr>"

definition demo_uri :: string where
  "demo_uri = ''http://datex2.eu/schema/1_0/1_0''"

definition demo_config :: config where
  "demo_config =
     \<lparr>XML_URL = ''https://example.org/carparks.xml'',
      XML_NAMESPACE = [''d2lm'' \<mapsto> demo_uri]\<rparr>"

definition leaf :: "string \<Rightarrow> string \<Rightarrow> xml" where
  "leaf local txt = Element (qtag demo_uri local) (Some txt) []"

definition empty_leaf :: "string \<Rightarrow> xml" where
  "empty_leaf local = Element (qtag demo_uri local) None []"

definition node :: "string \<Rightarrow> xml list \<Rightarrow> xml" where
  "node local cs = Element (qtag demo_uri local) None cs"

text \<open>A feed with the given \<open>situation\<close> elements, published at noon.\<close>

definition demo_feed :: "xml list \<Rightarrow> xml" where
  "demo_feed sits =
     node ''d2LogicalModel''
       [node ''exchange'' [leaf ''country'' ''gb''],
        node ''payloadPublication'' (leaf ''publicationTime'' ''2024-03-01T12:00:00'' # sits)]"

definition harford :: xml where
  "harford =
     node ''situationRecord''
       [leaf ''carParkIdentity'' ''Harford, Ipswich Road, Nor:CPN0015'',
        leaf ''carParkStatus'' ''enoughSpacesAvailable'',
        leaf ''occupiedSpaces'' ''120'',
        leaf ''totalCapacity'' ''500'',
        leaf ''carParkOccupancy'' ''24.0'']"

definition st_andrews :: xml where
  "st_andrews =
     node ''situationRecord''
       [leaf ''carParkIdentity'' ''St Andrews:CPN0001'',
        leaf ''carParkStatus'' ''carParkFull'',
        leaf ''occupiedSpaces'' ''1084'',
        leaf ''totalCapacity'' ''1080'',
        leaf ''carParkOccupancy'' ''100.0'']"

text \<open>The second record without its \<open>carParkOccupancy\<close> child.\<close>

definition st_andrews_no_occupancy :: xml where
  "st_andrews_no_occupancy =
     node ''situationRecord''
       [leaf ''carParkIdentity'' ''St Andrews:CPN0001'',
        leaf ''carParkStatus'' ''carParkFull'',
        leaf ''occupiedSpaces'' ''1084'',
        leaf ''totalCapacity'' ''1080'']"

text \<open>The second record with a \<open>carParkStatus\<close> element that has no text.\<close>

definition st_andrews_empty_status :: xml where
  "st_andrews_empty_status =
     node ''situationRecord''
       [leaf ''carParkIdentity'' ''St Andrews:CPN0001'',
        empty_leaf ''carParkStatus'',
        leaf ''occupiedSpaces'' ''1084'',
        leaf ''totalCapacity'' ''1080'',
        leaf ''carParkOccupancy'' ''100.0'']"

text \<open>A record whose identity has no colon.\<close>

definition no_colon_here :: xml where
  "no_colon_here =
     node ''situationRecord''
       [leaf ''carParkIdentity'' ''NoColonHere'',
        leaf ''carParkStatus'' ''enoughSpacesAvailable'',
        leaf ''occupiedSpaces'' ''1'',
        leaf ''totalCapacity'' ''2'',
        leaf ''carParkOccupancy'' ''50.0'']"

definition two_records :: xml where
  "two_records = demo_feed [node ''situation'' [harford], node ''situation'' [st_andrews]]"

definition second_record_bad :: xml where
  "second_record_bad =
     demo_feed [node ''situation'' [harford], node ''situation'' [st_andrews_no_occupancy]]"

definition second_status_empty :: xml where
  "second_status_empty =
     demo_feed [node ''situation'' [harford], node ''situation'' [st_andrews_empty_status]]"

definition no_situations :: xml where
  "no_situations = demo_feed []"

definition reachable :: urlopen_result where
  "reachable = Response ''<d2LogicalModel/>''"

definition unreachable :: urlopen_result where
  "unreachable = URLError_raised ''[Errno -2] Name or service not known''"

text \<open>The attributes after a first, successful call on the feed of two records.\<close>

definition after_success :: "string state" where
  "after_success = snd (refresh (demo_world reachable (Inr two_records)) demo_config init)"

section \<open>Properties of the name repair\<close>

lemma is_word_letters [simp]:
  "is_word uw CHR ''N''" "is_word uw CHR ''o''" "is_word uw CHR ''r''" "is_word uw CHR ''w''"
  "is_word uw CHR ''i''" "is_word uw CHR ''c''" "is_word uw CHR ''h''"
  "is_word uw CHR ''O''" "is_word uw CHR ''R''" "is_word uw CHR ''W''"
  "is_word uw CHR ''I''" "is_word uw CHR ''C''" "is_word uw CHR ''H''"
  by (simp_all add: is_word_def ascii_word_def)

lemma word_boundary_simps [simp]:
  "word_boundary uw [] = True"
  "word_boundary uw (c # cs) = (\<not> is_word uw c)"
  by (simp_all add: word_boundary_def)

text \<open>
  A pattern of word characters that matches at the start of a run of word characters, with a
  boundary after the match, is the whole run.
\<close>

lemma exact_match:
  "prefix p (w @ q) \<Longrightarrow> list_all (is_word uw) p \<Longrightarrow> list_all (is_word uw) w \<Longrightarrow>
   word_boundary uw q \<Longrightarrow> n = length p \<Longrightarrow> word_boundary uw (drop n (w @ q)) \<Longrightarrow> w = p"
proof (induction p arbitrary: w n)
  case Nil
  then show ?case by (cases w) auto
next
  case (Cons a p)
  show ?case
  proof (cases w)
    case Nil
    with Cons.prems show ?thesis by (cases q) auto
  next
    case (Cons c w')
    with Cons.prems Cons.IH[of w'] show ?thesis by auto
  qed
qed

lemma match_nor_word:
  assumes "list_all (is_word uw) w" "word_boundary uw q"
  shows "match_nor uw (w @ q) =
           (if w = ''Norwic'' then Some 6 else if w = ''Nor'' then Some 3 else None)"
proof -
  have a: "prefix ''Norwic'' (w @ q) \<and> word_boundary uw (drop 6 (w @ q)) \<longleftrightarrow> w = ''Norwic''"
  proof
    assume h: "prefix ''Norwic'' (w @ q) \<and> word_boundary uw (drop 6 (w @ q))"
    show "w = ''Norwic''"
      by (rule exact_match[of _ w q uw 6]) (use h assms in simp_all)
  next
    assume "w = ''Norwic''"
    then show "prefix ''Norwic'' (w @ q) \<and> word_boundary uw (drop 6 (w @ q))"
      using assms by simp
  qed
  have b: "prefix ''Nor'' (w @ q) \<and> word_boundary uw (drop 3 (w @ q)) \<longleftrightarrow> w = ''Nor''"
  proof
    assume h: "prefix ''Nor'' (w @ q) \<and> word_boundary uw (drop 3 (w @ q))"
    show "w = ''Nor''"
      by (rule exact_match[of _ w q uw 3]) (use h assms in simp_all)
  next
    assume "w = ''Nor''"
    then show "prefix ''Nor'' (w @ q) \<and> word_boundary uw (drop 3 (w @ q))"
      using assms by simp
  qed
  show ?thesis unfolding match_nor_def using a b by auto
qed

lemma match_norw_word:
  assumes "list_all (is_word uw) w" "word_boundary uw q"
  shows "match_norw uw (w @ q) = (if w = ''NORW'' then Some 4 else None)"
proof -
  have a: "prefix ''NORW'' (w @ q) \<and> word_boundary uw (drop 4 (w @ q)) \<longleftrightarrow> w = ''NORW''"
  proof
    assume h: "prefix ''NORW'' (w @ q) \<and> word_boundary uw (drop 4 (w @ q))"
    show "w = ''NORW''"
      by (rule exact_match[of _ w q uw 4]) (use h assms in simp_all)
  next
    assume "w = ''NORW''"
    then show "prefix ''NORW'' (w @ q) \<and> word_boundary uw (drop 4 (w @ q))"
      using assms by simp
  qed
  show ?thesis unfolding match_norw_def using a by auto
qed

lemma trailing_nor_Cons:
  "c # w \<noteq> ''Norwic'' \<Longrightarrow> c # w \<noteq> ''Nor'' \<Longrightarrow> trailing_nor (c # w) = c # trailing_nor w"
  by (auto simp: trailing_nor_def suffix_Cons)

lemma trailing_norw_Cons:
  "c # w \<noteq> ''NORW'' \<Longrightarrow> trailing_norw (c # w) = c # trailing_norw w"
  by (auto simp: trailing_norw_def suffix_Cons)

text \<open>On a run of word characters followed by a boundary, the scan repairs the run's end.\<close>

lemma sub_nor_word:
  "list_all (is_word uw) w \<Longrightarrow> word_boundary uw q \<Longrightarrow>
     sub_nor uw (w @ q) = trailing_nor w @ sub_nor uw q"
proof (induction w)
  case Nil
  then show ?case by (simp add: trailing_nor_def)
next
  case (Cons c w)
  have m: "match_nor uw ((c # w) @ q) =
      (if c # w = ''Norwic'' then Some 6 else if c # w = ''Nor'' then Some 3 else None)"
    using Cons.prems by (rule match_nor_word)
  consider (a) "c # w = ''Norwic''" | (b) "c # w = ''Nor''"
    | (c) "c # w \<noteq> ''Norwic''" "c # w \<noteq> ''Nor''"
    by blast
  then show ?case
  proof cases
    case a
    then show ?thesis using m by (auto simp: sub_nor_def trailing_nor_def suffix_Cons)
  next
    case b
    then show ?thesis using m by (auto simp: sub_nor_def trailing_nor_def suffix_Cons)
  next
    case c
    then have "match_nor uw (c # w @ q) = None" using m by simp
    then have "sub_nor uw ((c # w) @ q) = c # sub_nor uw (w @ q)"
      by (simp add: sub_nor_def)
    then show ?thesis using Cons c by (simp add: trailing_nor_Cons)
  qed
qed

lemma sub_norw_word:
  "list_all (is_word uw) w \<Longrightarrow> word_boundary uw q \<Longrightarrow>
     sub_norw uw (w @ q) = trailing_norw w @ sub_norw uw q"
proof (induction w)
  case Nil
  then show ?case by (simp add: trailing_norw_def)
next
  case (Cons c w)
  have m: "match_norw uw ((c # w) @ q) = (if c # w = ''NORW'' then Some 4 else None)"
    using Cons.prems by (rule match_norw_word)
  show ?case
  proof (cases "c # w = ''NORW''")
    case True
    then show ?thesis using m by (auto simp: sub_norw_def trailing_norw_def suffix_Cons)
  next
    case False
    then have "match_norw uw (c # w @ q) = None" using m by simp
    then have "sub_norw uw ((c # w) @ q) = c # sub_norw uw (w @ q)"
      by (simp add: sub_norw_def)
    then show ?thesis using Cons False by (simp add: trailing_norw_Cons)
  qed
qed

lemma sub_nor_nonword: "\<not> is_word uw c \<Longrightarrow> sub_nor uw (c # q) = c # sub_nor uw q"
  by (auto simp: sub_nor_def match_nor_def prefix_Cons)

lemma sub_norw_nonword: "\<not> is_word uw c \<Longrightarrow> sub_norw uw (c # q) = c # sub_norw uw q"
  by (auto simp: sub_norw_def match_norw_def prefix_Cons)

lemma sub_nor_boundary: "word_boundary uw (sub_nor uw q) = word_boundary uw q"
proof (cases q)
  case Nil
  then show ?thesis by (simp add: sub_nor_def)
next
  case (Cons c q')
  then show ?thesis
    by (auto simp: sub_nor_def match_nor_def split: option.splits if_splits)
qed

lemma sub_norw_boundary: "word_boundary uw (sub_norw uw q) = word_boundary uw q"
proof (cases q)
  case Nil
  then show ?thesis by (simp add: sub_norw_def)
next
  case (Cons c q')
  then show ?thesis
    by (auto simp: sub_norw_def match_norw_def split: option.splits if_splits)
qed

lemma trailing_nor_all_word:
  "list_all (is_word uw) w \<Longrightarrow> list_all (is_word uw) (trailing_nor w)"
  by (simp add: trailing_nor_def)

lemma trailing_norw_all_word:
  "list_all (is_word uw) w \<Longrightarrow> list_all (is_word uw) (trailing_norw w)"
  by (simp add: trailing_norw_def)

lemma name_repair_word:
  assumes "list_all (is_word uw) w" "word_boundary uw q"
  shows "name_repair uw (w @ q) = trailing_norw (trailing_nor w) @ name_repair uw q"
  using assms
  by (simp add: name_repair_def sub_nor_word sub_norw_word trailing_nor_all_word
      sub_nor_boundary)

lemma name_repair_nonword:
  "\<not> is_word uw c \<Longrightarrow> name_repair uw (c # q) = c # name_repair uw q"
  by (simp add: name_repair_def sub_nor_nonword sub_norw_nonword)

lemma name_repair_Nil: "name_repair uw [] = []"
  by (simp add: name_repair_def sub_nor_def sub_norw_def)

lemma name_repair_boundary: "word_boundary uw (name_repair uw q) = word_boundary uw q"
  by (simp add: name_repair_def sub_nor_boundary sub_norw_boundary)

lemma trailing_twice:
  "trailing_norw (trailing_nor (trailing_norw (trailing_nor w))) = trailing_norw (trailing_nor w)"
  by (auto simp: trailing_nor_def trailing_norw_def suffix_to_prefix)

text \<open>
  Every string is empty, or a character that is not a word character before a string, or a
  non-empty run of word characters before a boundary.
\<close>

lemma word_run_induct [case_names Nil nonword word]:
  assumes "P []"
    and "\<And>c q. \<not> is_word uw c \<Longrightarrow> P q \<Longrightarrow> P (c # q)"
    and "\<And>w q. w \<noteq> [] \<Longrightarrow> list_all (is_word uw) w \<Longrightarrow> word_boundary uw q \<Longrightarrow> P q
           \<Longrightarrow> P (w @ q)"
  shows "P s"
proof (induction s rule: length_induct)
  case (1 s)
  show ?case
  proof (cases s)
    case Nil
    then show ?thesis using assms(1) by simp
  next
    case (Cons c q)
    show ?thesis
    proof (cases "is_word uw c")
      case False
      then show ?thesis using assms(2)[of c q] 1 Cons by simp
    next
      case True
      define w where "w = takeWhile (is_word uw) s"
      define r where "r = dropWhile (is_word uw) s"
      have s: "s = w @ r" by (simp add: w_def r_def)
      have w: "w \<noteq> []" using True Cons by (simp add: w_def)
      have aw: "list_all (is_word uw) w"
        unfolding w_def list_all_iff by (auto dest: set_takeWhileD)
      have b: "word_boundary uw r"
      proof (cases r)
        case Nil
        then show ?thesis by simp
      next
        case (Cons d r')
        then have "dropWhile (is_word uw) s \<noteq> []" by (simp add: r_def)
        then have "\<not> is_word uw (hd (dropWhile (is_word uw) s))" by (rule hd_dropWhile)
        then show ?thesis using Cons by (simp add: r_def)
      qed
      have "length r < length s" using s w by simp
      then have "P r" using 1 by blast
      then show ?thesis using assms(3)[OF w aw b] s by simp
    qed
  qed
qed

lemma name_repair_idem: "name_repair uw (name_repair uw s) = name_repair uw s"
proof (induction s rule: word_run_induct[where uw = uw])
  case Nil
  then show ?case by (simp add: name_repair_Nil)
next
  case (nonword c q)
  then show ?case by (simp add: name_repair_nonword)
next
  case (word w q)
  have "name_repair uw (name_repair uw (w @ q)) =
        name_repair uw (trailing_norw (trailing_nor w) @ name_repair uw q)"
    using word by (simp add: name_repair_word)
  also have "\<dots> = trailing_norw (trailing_nor (trailing_norw (trailing_nor w)))
                     @ name_repair uw (name_repair uw q)"
    using word
    by (intro name_repair_word)
      (simp_all add: trailing_nor_all_word trailing_norw_all_word name_repair_boundary)
  also have "\<dots> = name_repair uw (w @ q)"
    using word by (simp add: trailing_twice name_repair_word)
  finally show ?case .
qed

lemmas repair_eval =
  name_repair_def sub_nor_def sub_norw_def match_nor_def match_norw_def is_word_def
  ascii_word_def

text \<open>
  Claim C5, as amended. The code does not look at the end of the name only: it scans the whole
  name, and every maximal run of word characters (every word, wherever it stands) that ends in
  \<open>Nor\<close> or \<open>Norwic\<close> gets that ending replaced by \<open>Norwich\<close>, then every word that
  ends in \<open>NORW\<close> gets it replaced by \<open>NORWICH\<close>. A character that is not a word character
  is copied, and nothing else changes. What the specification says of the end of the name
  (\<open>trailing_nor\<close>, \<open>trailing_norw\<close>) holds of the end of each word.
\<close>

theorem name_repair_per_word:
  "name_repair uw [] = [] \<and>
   (\<not> is_word uw c \<longrightarrow> name_repair uw (c # q) = c # name_repair uw q) \<and>
   (list_all (is_word uw) w \<and> word_boundary uw r \<longrightarrow>
      name_repair uw (w @ r) = trailing_norw (trailing_nor w) @ name_repair uw r)"
  by (simp add: name_repair_Nil name_repair_nonword name_repair_word)

theorem name_repair_per_word_witness:
  "name_repair ascii_only [] = [] \<and>
   \<not> is_word ascii_only CHR '','' \<and>
   name_repair ascii_only '', Nor'' = CHR '','' # name_repair ascii_only '' Nor'' \<and>
   list_all (is_word ascii_only) ''Norwic'' \<and> word_boundary ascii_only '' Road, NORW'' \<and>
   name_repair ascii_only (''Norwic'' @ '' Road, NORW'') =
     trailing_norw (trailing_nor ''Norwic'') @ name_repair ascii_only '' Road, NORW'' \<and>
   name_repair ascii_only ''Norwic Road, NORW'' = ''Norwich Road, NORWICH''"
  using name_repair_per_word [of ascii_only "CHR '',''" "'' Nor''" "''Norwic''" "'' Road, NORW''"]
  by (simp add: repair_eval trailing_nor_def trailing_norw_def suffix_to_prefix)

text \<open>
  Claim C5, as stated, fails: in \<open>Nor Road\<close> the word \<open>Nor\<close> is not at the end of the
  name, and the code replaces it all the same, where the trailing rule leaves the name as it is.
\<close>

theorem name_repair_not_trailing_only:
  "name_repair ascii_only ''Nor Road'' = ''Norwich Road'' \<and>
   trailing_norw (trailing_nor ''Nor Road'') = ''Nor Road'' \<and>
   name_repair ascii_only ''Nor Road'' \<noteq> trailing_norw (trailing_nor ''Nor Road'')"
  by (simp add: repair_eval trailing_nor_def trailing_norw_def suffix_to_prefix)

lemmas demo_defs =
  demo_world_def demo_config_def demo_feed_def node_def leaf_def empty_leaf_def qtag_def
  demo_uri_def harford_def st_andrews_def st_andrews_no_occupancy_def no_colon_here_def
  two_records_def second_record_bad_def no_situations_def reachable_def unreachable_def
  st_andrews_empty_status_def second_status_empty_def
  always_def demo_int_def demo_float_def demo_strptime_def demo_format_tb_def digit_val_def
  float_char_def time_char_def ascii_only_def init_def

lemmas pipeline_defs =
  refresh_def set_failure_def retrieve_xml_data_def parse_xml_data_def
  parse_situation_record_def bind_exc_def find_child_def findall_children_def
  find_descendant_def findall_situations_def qname_def tag_selects_def text_of_def to_int_def
  to_float_def
  to_datetime_def descendants_def transform_data_to_car_parks_def transform_record_def

lemmas feed_defs =
  binds_d2lm_def plain_uri_def situation_records_def situations_def children_named_def child_def
  publication_time_def field_text_def int_field_def float_field_def well_formed_record_def
  malformed_record_def record_of_def descendants_def

text \<open>
  Claim C9. The name repair is idempotent, and the transformer maps the two identities of the
  specification's examples to the names and codes it gives: \<open>Harford, Ipswich Road, Norwich\<close>
  with code \<open>CPN0015\<close>, and \<open>SOME NORWICH\<close>, a name that ends in \<open>NORWICH\<close>. The
  transformer of \<open>helpers.py\<close> gives the same records.
\<close>

theorem name_repair_idempotent:
  "name_repair uw (name_repair uw s) = name_repair uw s \<and>
   transform_data_to_car_parks uw
     [\<lparr>raw_identity = Some ''Harford, Ipswich Road, Nor:CPN0015'', raw_status = st,
       raw_occupied_spaces = a, raw_total_capacity = b, raw_occupancy = f\<rparr>] =
     Inr [\<lparr>code = ''CPN0015'', name = ''Harford, Ipswich Road, Norwich'', status = st,
           occupied_spaces = a, remaining_spaces = b - a, total_capacity = b, occupancy = f\<rparr>] \<and>
   transform_data_to_car_parks uw
     [\<lparr>raw_identity = Some ''SOME NORW:CPX9'', raw_status = st,
       raw_occupied_spaces = a, raw_total_capacity = b, raw_occupancy = f\<rparr>] =
     Inr [\<lparr>code = ''CPX9'', name = ''SOME NORWICH'', status = st,
           occupied_spaces = a, remaining_spaces = b - a, total_capacity = b, occupancy = f\<rparr>] \<and>
   suffix ''NORWICH'' ''SOME NORWICH'' \<and>
   CarParkTransformer_transform_data_to_car_parks uw
     [\<lparr>raw_identity = Some ''Harford, Ipswich Road, Nor:CPN0015'', raw_status = st,
       raw_occupied_spaces = a, raw_total_capacity = b, raw_occupancy = f\<rparr>] =
     Inr [\<lparr>code = ''CPN0015'', name = ''Harford, Ipswich Road, Norwich'', status = st,
           occupied_spaces = a, remaining_spaces = b - a, total_capacity = b, occupancy = f\<rparr>] \<and>
   CarParkTransformer_transform_data_to_car_parks uw
     [\<lparr>raw_identity = Some ''SOME NORW:CPX9'', raw_status = st,
       raw_occupied_spaces = a, raw_total_capacity = b, raw_occupancy = f\<rparr>] =
     Inr [\<lparr>code = ''CPX9'', name = ''SOME NORWICH'', status = st,
           occupied_spaces = a, remaining_spaces = b - a, total_capacity = b, occupancy = f\<rparr>]"
proof -
  have 1: "name_repair uw (name_repair uw s) = name_repair uw s"
    by (rule name_repair_idem)
  have 2: "transform_record uw
     \<lparr>raw_identity = Some ''Harford, Ipswich Road, Nor:CPN0015'', raw_status = st,
       raw_occupied_spaces = a, raw_total_capacity = b, raw_occupancy = f\<rparr> =
     Inr \<lparr>code = ''CPN0015'', name = ''Harford, Ipswich Road, Norwich'', status = st,
           occupied_spaces = a, remaining_spaces = b - a, total_capacity = b, occupancy = f\<rparr>"
    by (simp add: transform_record_def sub_nor_def sub_norw_def match_nor_def match_norw_def
        is_word_def ascii_word_def)
  have 3: "transform_record uw
     \<lparr>raw_identity = Some ''SOME NORW:CPX9'', raw_status = st,
       raw_occupied_spaces = a, raw_total_capacity = b, raw_occupancy = f\<rparr> =
     Inr \<lparr>code = ''CPX9'', name = ''SOME NORWICH'', status = st,
           occupied_spaces = a, remaining_spaces = b - a, total_capacity = b, occupancy = f\<rparr>"
    by (simp add: transform_record_def sub_nor_def sub_norw_def match_nor_def match_norw_def
        is_word_def ascii_word_def)
  have 4: "suffix ''NORWICH'' ''SOME NORWICH''"
    by (simp add: suffix_to_prefix)
  have 5: "helpers_transform_record uw d = Inr c" if "transform_record uw d = Inr c" for d c
    using that
    by (auto simp: helpers_transform_record_def transform_record_def Let_def
        split: option.splits if_splits)
  show ?thesis
    using 1 2 3 4 5[OF 2] 5[OF 3]
    by (simp add: transform_data_to_car_parks_def
        CarParkTransformer_transform_data_to_car_parks_def)
qed

theorem name_repair_idempotent_witness:
  "name_repair ascii_only ''Nor Road, Norwic NORW'' = ''Norwich Road, Norwich NORWICH'' \<and>
   name_repair ascii_only (name_repair ascii_only ''Nor Road, Norwic NORW'') =
     ''Norwich Road, Norwich NORWICH'' \<and>
   transform_data_to_car_parks ascii_only
     [\<lparr>raw_identity = Some ''SOME NORW:CPX9'', raw_status = Some ''carParkFull'',
       raw_occupied_spaces = 120, raw_total_capacity = 500, raw_occupancy = ''24.0''\<rparr>] =
     Inr [\<lparr>code = ''CPX9'', name = ''SOME NORWICH'', status = Some ''carParkFull'',
           occupied_spaces = 120, remaining_spaces = 380, total_capacity = 500,
           occupancy = ''24.0''\<rparr>]"
  using name_repair_idempotent [of ascii_only "''Nor Road, Norwic NORW''" "Some ''carParkFull''"
      120 500 "''24.0''"]
  by (simp add: repair_eval)

section \<open>Properties of the transformer\<close>

lemma split_sep_nonempty: "split_sep sep s \<noteq> []"
  by (induction s) (auto split: list.splits)


lemma split_sep_length: "length (split_sep sep s) = Suc (count_list s sep)"
  by (induction s) (auto split: list.splits simp: split_sep_nonempty)



lemma split_sep_short: "length (split_sep sep s) < 2 \<longleftrightarrow> sep \<notin> set s"
  by (simp add: split_sep_length count_list_0_iff)


lemma transform_record_no_colon:
  "raw_identity d = Some ident \<Longrightarrow> CHR '':'' \<notin> set ident \<Longrightarrow>
     transform_record uw d = Inl (Exc ''IndexError'' ''list index out of range'' 148)"
  by (simp add: transform_record_def split_sep_short Let_def)

text \<open>The list built so far only sits in front of the result.\<close>

lemma transform_loop_acc:
  "transform_loop uw acc ds =
     (case transform_loop uw [] ds of Inl e \<Rightarrow> Inl e | Inr cs \<Rightarrow> Inr (acc @ cs))"
proof (induction ds arbitrary: acc)
  case Nil
  then show ?case by simp
next
  case (Cons d ds)
  show ?case
  proof (cases "transform_record uw d")
    case (Inl e)
    then show ?thesis by simp
  next
    case (Inr c)
    then show ?thesis
      using Cons[of "acc @ [c]"] Cons[of "[c]"] by (simp split: sum.splits)
  qed
qed

lemma transform_Cons:
  "transform_data_to_car_parks uw (d # ds) =
     (case transform_record uw d of
        Inl e \<Rightarrow> Inl e
      | Inr c \<Rightarrow>
          (case transform_data_to_car_parks uw ds of
             Inl e \<Rightarrow> Inl e
           | Inr cs \<Rightarrow> Inr (c # cs)))"
  unfolding transform_data_to_car_parks_def
  by (simp add: transform_loop_acc[of uw "[_]"] split: sum.splits)





lemma transform_fails_on:
  "d \<in> set ds \<Longrightarrow> isl (transform_record uw d) \<Longrightarrow> isl (transform_data_to_car_parks uw ds)"
proof (induction ds)
  case Nil
  then show ?case by simp
next
  case (Cons x ds)
  then show ?case by (auto simp: transform_Cons split: sum.splits)
qed

lemma transform_first_failure:
  "list_all (\<lambda>x. \<not> isl (transform_record uw x)) pre \<Longrightarrow> transform_record uw d = Inl e \<Longrightarrow>
     transform_data_to_car_parks uw (pre @ d # post) = Inl e"
proof (induction pre)
  case Nil
  then show ?case by (simp add: transform_Cons)
next
  case (Cons x pre)
  then show ?case by (auto simp: transform_Cons split: sum.splits)
qed



section \<open>Properties of the parser\<close>

lemma qname_bound:
  "binds_d2lm namespace uri \<Longrightarrow> qname namespace local line = Inr (qtag uri local)"
  by (simp add: qname_def qtag_def binds_d2lm_def)

text \<open>For a plain URI the steps of a path select by equality of tags.\<close>

lemma tag_selects_plain:
  assumes "plain_uri uri"
  shows "tag_selects (qtag uri local) el_tag = (el_tag = qtag uri local)"
proof (cases uri)
  case Nil
  then show ?thesis using assms by (simp add: plain_uri_def)
next
  case (Cons a u)
  show ?thesis
  proof (cases u)
    case Nil
    then show ?thesis using assms Cons
      by (auto simp: plain_uri_def tag_selects_def qtag_def)
  next
    case (Cons b v)
    then show ?thesis using assms \<open>uri = a # u\<close>
      by (auto simp: plain_uri_def tag_selects_def qtag_def)
  qed
qed

lemma tag_selects_bound:
  "binds_d2lm namespace uri \<Longrightarrow>
     (\<lambda>c. tag_selects (qtag uri local) (elem_tag c)) = (\<lambda>c. elem_tag c = qtag uri local)"
  by (rule ext) (simp add: binds_d2lm_def tag_selects_plain)

lemma find_child_bound:
  "binds_d2lm namespace uri \<Longrightarrow> find_child namespace local line e = Inr (child uri local e)"
  by (simp add: find_child_def child_def qname_bound tag_selects_bound)

lemma findall_children_bound:
  "binds_d2lm namespace uri \<Longrightarrow>
     findall_children namespace local line e = Inr (children_named uri local e)"
  by (simp add: findall_children_def children_named_def qname_bound tag_selects_bound)

lemma find_descendant_bound:
  "binds_d2lm namespace uri \<Longrightarrow>
     find_descendant namespace local line e =
       Inr (find (\<lambda>c. elem_tag c = qtag uri local) (descendants e))"
  by (simp add: find_descendant_def qname_bound tag_selects_bound)

lemma findall_situations_bound:
  assumes "binds_d2lm namespace uri"
  shows "findall_situations namespace line root = Inr (situations uri root)"
proof -
  have "children_named uri ''situation'' =
          (\<lambda>p. filter (\<lambda>c. elem_tag c = qtag uri ''situation'') (elem_children p))"
    by (rule ext) (simp add: children_named_def)
  then show ?thesis
    using assms
    by (simp add: findall_situations_def situations_def qname_bound
        tag_selects_bound[OF assms])
qed

lemma find_text_bound:
  "binds_d2lm namespace uri \<Longrightarrow>
   bind_exc (find_child namespace local line sr) (\<lambda>r. text_of r line) =
     (case child uri local sr of
        None \<Rightarrow> Inl (Exc ''AttributeError'' (no_attribute ''text'') line)
      | Some c \<Rightarrow> Inr (elem_text c))"
  by (simp add: find_child_bound bind_exc_def text_of_def)

lemma malformed_iff: "malformed_record W uri sr \<longleftrightarrow> \<not> well_formed_record W uri sr"
  by (auto simp: malformed_record_def well_formed_record_def int_field_def float_field_def
      field_text_def)

lemma parse_record_ok:
  assumes "binds_d2lm namespace uri" "well_formed_record W uri sr"
  shows "\<exists>r. parse_situation_record W namespace sr = Inr r \<and> record_of W uri sr r"
  using assms(2) unfolding parse_situation_record_def find_text_bound[OF assms(1)]
  by (auto simp: well_formed_record_def record_of_def int_field_def float_field_def
      field_text_def bind_exc_def to_int_def to_float_def split: option.splits sum.splits)

text \<open>
  An identity or status element that is present but has no text is no failure of the parser:
  the field is read as \<open>None\<close>.
\<close>

lemma empty_text_is_read_as_None:
  assumes "binds_d2lm namespace uri" "well_formed_record W uri sr"
  shows "\<exists>r. parse_situation_record W namespace sr = Inr r \<and>
           (field_text uri ''carParkStatus'' sr = None \<longrightarrow> raw_status r = None) \<and>
           (field_text uri ''carParkIdentity'' sr = None \<longrightarrow> raw_identity r = None)"
  using parse_record_ok[OF assms] by (auto simp: record_of_def)

lemma parse_record_bad:
  assumes "binds_d2lm namespace uri" "malformed_record W uri sr"
  shows "isl (parse_situation_record W namespace sr)"
  using assms(2) unfolding parse_situation_record_def find_text_bound[OF assms(1)]
  by (auto simp: malformed_record_def int_field_def float_field_def
      field_text_def bind_exc_def to_int_def to_float_def split: option.splits sum.splits)

text \<open>The inner loop: all records well formed, or one of them malformed.\<close>

lemma parse_records_ok:
  assumes "binds_d2lm namespace uri"
  shows "list_all (well_formed_record W uri) srs \<Longrightarrow>
     \<exists>rs. parse_records W namespace acc srs = Inr (acc @ rs) \<and>
          list_all2 (record_of W uri) srs rs"
proof (induction srs arbitrary: acc)
  case Nil
  then show ?case by simp
next
  case (Cons sr srs)
  from Cons.prems obtain r where
    r: "parse_situation_record W namespace sr = Inr r" "record_of W uri sr r"
    using parse_record_ok[OF assms, of W sr] by auto
  from Cons.prems Cons.IH[of "acc @ [r]"] obtain rs where
    rs: "parse_records W namespace (acc @ [r]) srs = Inr ((acc @ [r]) @ rs)"
      "list_all2 (record_of W uri) srs rs"
    by auto
  show ?case
    by (rule exI[of _ "r # rs"]) (use r rs in simp)
qed

lemma parse_records_bad:
  assumes "binds_d2lm namespace uri"
  shows "sr \<in> set srs \<Longrightarrow> malformed_record W uri sr \<Longrightarrow>
     isl (parse_records W namespace acc srs)"
proof (induction srs arbitrary: acc)
  case Nil
  then show ?case by simp
next
  case (Cons x srs)
  show ?case
  proof (cases "parse_situation_record W namespace x")
    case (Inl e)
    then show ?thesis by simp
  next
    case (Inr r)
    then have "x \<noteq> sr" using parse_record_bad[OF assms, of W sr] Cons.prems(2) by auto
    then have "sr \<in> set srs" using Cons.prems(1) by simp
    then show ?thesis using Cons.IH Cons.prems(2) Inr by simp
  qed
qed

text \<open>The outer loop, over the records of all situations in order.\<close>

lemma parse_situations_ok:
  assumes "binds_d2lm namespace uri"
  shows "list_all (well_formed_record W uri)
           (concat (map (children_named uri ''situationRecord'') sits)) \<Longrightarrow>
     \<exists>rs. parse_situations W namespace acc sits = Inr (acc @ rs) \<and>
        list_all2 (record_of W uri)
          (concat (map (children_named uri ''situationRecord'') sits)) rs"
proof (induction sits arbitrary: acc)
  case Nil
  then show ?case by simp
next
  case (Cons x sits)
  from Cons.prems
  have "list_all (well_formed_record W uri) (children_named uri ''situationRecord'' x)"
    by simp
  from parse_records_ok[OF assms this, of acc] obtain rs1 where
    rs1: "parse_records W namespace acc (children_named uri ''situationRecord'' x)
            = Inr (acc @ rs1)"
      "list_all2 (record_of W uri) (children_named uri ''situationRecord'' x) rs1"
    by auto
  from Cons.prems Cons.IH[of "acc @ rs1"] obtain rs2 where
    rs2: "parse_situations W namespace (acc @ rs1) sits = Inr ((acc @ rs1) @ rs2)"
      "list_all2 (record_of W uri)
         (concat (map (children_named uri ''situationRecord'') sits)) rs2"
    by auto
  show ?case
    by (rule exI[of _ "rs1 @ rs2"])
      (use rs1 rs2 in \<open>simp add: findall_children_bound[OF assms] list_all2_appendI\<close>)
qed

lemma parse_situations_bad:
  assumes "binds_d2lm namespace uri"
  shows "sr \<in> set (concat (map (children_named uri ''situationRecord'') sits)) \<Longrightarrow>
     malformed_record W uri sr \<Longrightarrow> isl (parse_situations W namespace acc sits)"
proof (induction sits arbitrary: acc)
  case Nil
  then show ?case by simp
next
  case (Cons x sits)
  show ?case
  proof (cases "parse_records W namespace acc (children_named uri ''situationRecord'' x)")
    case (Inl e)
    then show ?thesis by (simp add: findall_children_bound[OF assms])
  next
    case (Inr rs)
    then have "sr \<notin> set (children_named uri ''situationRecord'' x)"
      using parse_records_bad[OF assms _ Cons.prems(2),
          of "children_named uri ''situationRecord'' x" acc]
      by auto
    then have "sr \<in> set (concat (map (children_named uri ''situationRecord'') sits))"
      using Cons.prems(1) by simp
    then show ?thesis using Cons.IH Cons.prems(2) Inr
      by (simp add: findall_children_bound[OF assms])
  qed
qed

text \<open>Once the publication time is read, the result is that of the loops.\<close>

lemma parse_xml_data_head:
  assumes "fromstring W xml_data = Inr root" "binds_d2lm namespace uri"
    "publication_time uri root = Some txt" "strptime W txt = Inr ts"
  shows "parse_xml_data W xml_data namespace =
     (case parse_situations W namespace [] (situations uri root) of
        Inl e \<Rightarrow> Inl e | Inr rs \<Rightarrow> Inr (rs, ts))"
  using assms
  by (auto simp: parse_xml_data_def bind_exc_def find_descendant_bound
      publication_time_def text_of_def to_datetime_def findall_situations_bound
      split: option.splits sum.splits)

lemma parse_fails_on_malformed:
  assumes "fromstring W xml_data = Inr root" "binds_d2lm namespace uri"
    "sr \<in> set (situation_records uri root)" "malformed_record W uri sr"
  shows "isl (parse_xml_data W xml_data namespace)"
proof -
  have "isl (parse_situations W namespace [] (situations uri root))"
    using parse_situations_bad[OF assms(2) _ assms(4), of "situations uri root" "[]"] assms(3)
    by (simp add: situation_records_def)
  then show ?thesis
    using assms(1,2)
    by (auto simp: parse_xml_data_def bind_exc_def findall_situations_bound isl_def
      split: option.splits sum.splits)
qed

text \<open>The selected records lie in the document in the order of their selection.\<close>

lemma subseq_concat_map:
  "(\<And>x. x \<in> set xs \<Longrightarrow> subseq (f x) (g x)) \<Longrightarrow> subseq (concat (map f xs)) (concat (map g xs))"
  by (induction xs) (auto intro: list_emb_append_mono)

lemma subseq_concat_filter: "subseq (concat (map f (filter P xs))) (concat (map f xs))"
  by (induction xs) (auto intro: list_emb_append2 list_emb_append_mono)

lemma concat_map_concat:
  "concat (map f (concat (map g xs))) = concat (map (\<lambda>x. concat (map f (g x))) xs)"
  by (induction xs) simp_all

lemma elem_iter_unfold: "elem_iter e = e # descendants e"
  by (cases e) (simp add: descendants_def)

lemma subseq_roots: "subseq cs (concat (map elem_iter cs))"
proof (induction cs)
  case Nil
  then show ?case by simp
next
  case (Cons c cs)
  have "subseq cs (descendants c @ concat (map elem_iter cs))"
    using Cons by (rule list_emb_append2)
  then show ?case by (simp add: elem_iter_unfold[of c])
qed

lemma children_subseq: "subseq (filter P (elem_children e)) (descendants e)"
proof -
  have "subseq (filter P (elem_children e)) (elem_children e)" by simp
  also have "subseq (elem_children e) (descendants e)"
    unfolding descendants_def by (rule subseq_roots)
  finally show ?thesis .
qed

lemma records_under_subseq: "subseq (records_under uri p) (descendants p)"
proof -
  have 1: "subseq (concat (map (children_named uri ''situationRecord'') (elem_children p)))
             (concat (map elem_iter (elem_children p)))"
  proof (rule subseq_concat_map)
    fix x
    have "subseq (children_named uri ''situationRecord'' x) (descendants x)"
      unfolding children_named_def by (rule children_subseq)
    then show "subseq (children_named uri ''situationRecord'' x) (elem_iter x)"
      unfolding elem_iter_unfold[of x] by (rule list_emb_Cons)
  qed
  have 2: "subseq (records_under uri p)
             (concat (map (children_named uri ''situationRecord'') (elem_children p)))"
    unfolding records_under_def children_named_def[of uri "''situation''"]
    by (rule subseq_concat_filter)
  from 2 1 show ?thesis unfolding descendants_def by (rule subseq_order.trans)
qed


text \<open>The records selected in the subtree of an element, the element included.\<close>

lemma selected_in_subtree:
  "list_all (\<lambda>p. filter (is_payload uri) (descendants p) = []) (filter (is_payload uri) (elem_iter e))
   \<Longrightarrow> subseq (concat (map (records_under uri) (filter (is_payload uri) (elem_iter e))))
         (descendants e)"
proof (induction e)
  case (Element t x cs)
  let ?e = "Element t x cs"
  show ?case
  proof (cases "is_payload uri ?e")
    case True
    then have "filter (is_payload uri) (descendants ?e) = []"
      using Element.prems by (simp add: elem_iter_unfold[of ?e])
    then have "filter (is_payload uri) (elem_iter ?e) = [?e]"
      using True by (simp add: descendants_def)
    then show ?thesis by (simp add: records_under_subseq)
  next
    case False
    have d: "descendants ?e = concat (map elem_iter cs)" by (simp add: descendants_def)
    have f: "filter (is_payload uri) (elem_iter ?e) =
               concat (map (\<lambda>c. filter (is_payload uri) (elem_iter c)) cs)"
      using False by (simp add: filter_concat comp_def)
    have "subseq (concat (map (\<lambda>c. concat (map (records_under uri) (filter (is_payload uri) (elem_iter c)))) cs))
            (concat (map elem_iter cs))"
    proof (rule subseq_concat_map)
      fix c assume c: "c \<in> set cs"
      have "list_all (\<lambda>p. filter (is_payload uri) (descendants p) = [])
              (filter (is_payload uri) (elem_iter c))"
        using Element.prems c unfolding f by (auto simp: list_all_iff)
      from Element.IH[OF c this]
      show "subseq (concat (map (records_under uri) (filter (is_payload uri) (elem_iter c))))
              (elem_iter c)"
        unfolding elem_iter_unfold[of c] by (rule list_emb_Cons)
    qed
    then show ?thesis
      unfolding f d by (simp add: concat_map_concat)
  qed
qed

lemma situation_records_alt:
  "situation_records uri root =
     concat (map (records_under uri) (filter (is_payload uri) (descendants root)))"
proof -
  have 1: "is_payload uri = (\<lambda>d. elem_tag d = qtag uri ''payloadPublication'')"
    by (rule ext) (simp add: is_payload_def)
  have 2: "records_under uri =
      (\<lambda>x. concat (map (children_named uri ''situationRecord'')
                        (children_named uri ''situation'' x)))"
    by (rule ext) (simp add: records_under_def)
  show ?thesis
    by (simp add: situation_records_def situations_def concat_map_concat 1 2)
qed

lemma records_in_document_order:
  assumes "payloads_not_nested uri root"
  shows "subseq (situation_records uri root) (descendants root)"
proof -
  have "subseq (concat (map (\<lambda>c. concat (map (records_under uri) (filter (is_payload uri) (elem_iter c)))) (elem_children root)))
          (concat (map elem_iter (elem_children root)))"
  proof (rule subseq_concat_map)
    fix c assume c: "c \<in> set (elem_children root)"
    have "list_all (\<lambda>p. filter (is_payload uri) (descendants p) = [])
            (filter (is_payload uri) (elem_iter c))"
      using assms c unfolding payloads_not_nested_def descendants_def[of root]
      by (auto simp: list_all_iff)
    from selected_in_subtree[OF this]
    show "subseq (concat (map (records_under uri) (filter (is_payload uri) (elem_iter c))))
            (elem_iter c)"
      unfolding elem_iter_unfold[of c] by (rule list_emb_Cons)
  qed
  then show ?thesis
    unfolding situation_records_alt descendants_def[of root]
    by (simp add: filter_concat concat_map_concat comp_def)
qed

text \<open>
  Claim C3. For a feed that parses to \<open>root\<close>, with the prefix bound, a publication time
  that \<open>strptime\<close> accepts and every \<open>situationRecord\<close> under the payload path well
  formed, the parser returns as many raw records as there are such elements, the i-th record
  carrying the fields of the i-th element in the order "situations, then the records within
  each", together with the timestamp. That order is the order of the elements in the document
  (a subsequence of the elements below the root as \<open>iter\<close> lists them) when no
  \<open>payloadPublication\<close> lies inside another.
\<close>

theorem parse_round_trip:
  assumes "fromstring W xml_data = Inr root" "binds_d2lm namespace uri"
    "publication_time uri root = Some txt" "strptime W txt = Inr ts"
    "list_all (well_formed_record W uri) (situation_records uri root)"
  shows "\<exists>rs. parse_xml_data W xml_data namespace = Inr (rs, ts) \<and>
           length rs = length (situation_records uri root) \<and>
           (\<forall>i < length rs. record_of W uri (situation_records uri root ! i) (rs ! i)) \<and>
           (payloads_not_nested uri root \<longrightarrow>
              subseq (situation_records uri root) (descendants root))"
proof -
  from parse_situations_ok[OF assms(2), of W "situations uri root" "[]"] assms(5)
  obtain rs where rs: "parse_situations W namespace [] (situations uri root) = Inr rs"
    "list_all2 (record_of W uri) (situation_records uri root) rs"
    by (auto simp: situation_records_def)
  have len: "length rs = length (situation_records uri root)"
    using list_all2_lengthD[OF rs(2)] by simp
  have nth: "\<forall>i < length rs. record_of W uri (situation_records uri root ! i) (rs ! i)"
    using rs(2) by (simp add: list_all2_conv_all_nth)
  show ?thesis
    by (rule exI[of _ rs])
      (use rs(1) len nth records_in_document_order[of uri root] in
        \<open>simp add: parse_xml_data_head[OF assms(1-4)]\<close>)
qed

theorem parse_round_trip_witness:
  "fromstring (demo_world reachable (Inr two_records)) ''<d2LogicalModel/>'' = Inr two_records \<and>
   binds_d2lm (XML_NAMESPACE demo_config) demo_uri \<and>
   publication_time demo_uri two_records = Some ''2024-03-01T12:00:00'' \<and>
   strptime (demo_world reachable (Inr two_records)) ''2024-03-01T12:00:00''
     = Inr ''2024-03-01T12:00:00'' \<and>
   situation_records demo_uri two_records = [harford, st_andrews] \<and>
   list_all (well_formed_record (demo_world reachable (Inr two_records)) demo_uri)
     (situation_records demo_uri two_records) \<and>
   payloads_not_nested demo_uri two_records \<and>
   subseq [harford, st_andrews] (descendants two_records) \<and>
   parse_xml_data (demo_world reachable (Inr two_records)) ''<d2LogicalModel/>''
       (XML_NAMESPACE demo_config) =
     Inr ([\<lparr>raw_identity = Some ''Harford, Ipswich Road, Nor:CPN0015'',
             raw_status = Some ''enoughSpacesAvailable'', raw_occupied_spaces = 120,
             raw_total_capacity = 500, raw_occupancy = ''24.0''\<rparr>,
           \<lparr>raw_identity = Some ''St Andrews:CPN0001'',
             raw_status = Some ''carParkFull'', raw_occupied_spaces = 1084,
             raw_total_capacity = 1080, raw_occupancy = ''100.0''\<rparr>],
          ''2024-03-01T12:00:00'')"
proof -
  let ?W = "demo_world reachable (Inr two_records)"
  have h1: "fromstring ?W ''<d2LogicalModel/>'' = Inr two_records"
    by (simp add: demo_world_def always_def)
  have h2: "binds_d2lm (XML_NAMESPACE demo_config) demo_uri"
    by (simp add: binds_d2lm_def plain_uri_def demo_config_def demo_uri_def)
  have h3: "publication_time demo_uri two_records = Some ''2024-03-01T12:00:00''"
    by (simp add: demo_defs feed_defs)
  have h4: "strptime ?W ''2024-03-01T12:00:00'' = Inr ''2024-03-01T12:00:00''"
    by (simp add: demo_defs)
  have recs: "situation_records demo_uri two_records = [harford, st_andrews]"
    by (simp add: demo_defs feed_defs)
  have h5: "list_all (well_formed_record ?W demo_uri) (situation_records demo_uri two_records)"
    unfolding recs by (simp add: demo_defs feed_defs)
  have h6: "payloads_not_nested demo_uri two_records"
    by (simp add: payloads_not_nested_def is_payload_def demo_defs descendants_def)
  from parse_round_trip [OF h1 h2 h3 h4 h5] h6
  obtain rs where "parse_xml_data ?W ''<d2LogicalModel/>'' (XML_NAMESPACE demo_config)
      = Inr (rs, ''2024-03-01T12:00:00'')"
    and "subseq (situation_records demo_uri two_records) (descendants two_records)"
    by blast
  moreover have "parse_xml_data ?W ''<d2LogicalModel/>'' (XML_NAMESPACE demo_config) =
     Inr ([\<lparr>raw_identity = Some ''Harford, Ipswich Road, Nor:CPN0015'',
             raw_status = Some ''enoughSpacesAvailable'', raw_occupied_spaces = 120,
             raw_total_capacity = 500, raw_occupancy = ''24.0''\<rparr>,
           \<lparr>raw_identity = Some ''St Andrews:CPN0001'',
             raw_status = Some ''carParkFull'', raw_occupied_spaces = 1084,
             raw_total_capacity = 1080, raw_occupancy = ''100.0''\<rparr>],
          ''2024-03-01T12:00:00'')"
    by (simp add: demo_defs pipeline_defs)
  ultimately show ?thesis using h1 h2 h3 h4 h5 h6 recs by simp
qed

section \<open>Properties of the orchestrator\<close>

lemma refresh_failure:
  "raised_in_try W C = Some e \<Longrightarrow>
     refresh W C s =
       ([], s\<lparr>last_updated :=
                 (case parsed_timestamp W C of None \<Rightarrow> last_updated s | Some t \<Rightarrow> Some t),
              success := Some False,
              error_message := Some (exc_type e @ '': '' @ exc_str e),
              traceback := TbList (format_tb W e)\<rparr>)"
  by (auto simp: raised_in_try_def parsed_timestamp_def refresh_def set_failure_def Let_def
      split: sum.splits prod.splits)

lemma refresh_success:
  "raised_in_try W C = None \<Longrightarrow>
     \<exists>x ds ts cs. retrieve_xml_data W (XML_URL C) = Inr x \<and>
       parse_xml_data W x (XML_NAMESPACE C) = Inr (ds, ts) \<and>
       transform_data_to_car_parks (unicode_alnum W) ds = Inr cs \<and>
       refresh W C s =
         (cs, s\<lparr>last_updated := Some ts, success := Some True, error_message := Some [],
                 traceback := TbStr []\<rparr>)"
  by (auto simp: raised_in_try_def refresh_def set_failure_def Let_def
      split: sum.splits prod.splits)

lemma raised_by_parse:
  "urlopen W (XML_URL C) = Response x \<Longrightarrow> parse_xml_data W x (XML_NAMESPACE C) = Inl e \<Longrightarrow>
     raised_in_try W C = Some e"
  by (simp add: raised_in_try_def retrieve_xml_data_def)

lemma raised_by_transform:
  "urlopen W (XML_URL C) = Response x \<Longrightarrow> parse_xml_data W x (XML_NAMESPACE C) = Inr (ds, ts)
     \<Longrightarrow> transform_data_to_car_parks (unicode_alnum W) ds = Inl e \<Longrightarrow>
     raised_in_try W C = Some e"
  by (simp add: raised_in_try_def retrieve_xml_data_def)

text \<open>
  Claim C1. \<open>refresh\<close> always returns: whatever exception the fetch, the parse or the
  transformation raises, the call returns the empty list with \<open>success = False\<close>, an error
  message made of the exception's type name, a colon and its message (never empty), and the
  traceback that \<open>format_tb\<close> gives for it. An unreachable URL, a body that is no XML, a
  malformed record and an identity without a colon are such failures.
\<close>

theorem refresh_contains_failure:
  "(raised_in_try W C = Some e \<longrightarrow>
      refresh W C s =
        ([], s\<lparr>last_updated :=
                  (case parsed_timestamp W C of None \<Rightarrow> last_updated s | Some t \<Rightarrow> Some t),
               success := Some False,
               error_message := Some (exc_type e @ '': '' @ exc_str e),
               traceback := TbList (format_tb W e)\<rparr>) \<and>
      exc_type e @ '': '' @ exc_str e \<noteq> []) \<and>
   (urlopen W (XML_URL C) = URLError_raised reason \<longrightarrow>
      raised_in_try W C =
        Some (Exc ''URLError''
                (''<urlopen error Failed to retrieve XML data from '' @ XML_URL C @ '': ''
                   @ reason @ ''>'') 94)) \<and>
   (urlopen W (XML_URL C) = Raised e' \<longrightarrow> raised_in_try W C = Some e') \<and>
   (urlopen W (XML_URL C) = Response x \<and> fromstring W x = Inl m \<longrightarrow>
      raised_in_try W C = Some (Exc ''ParseError'' m 108)) \<and>
   (urlopen W (XML_URL C) = Response x \<and> fromstring W x = Inr root \<and>
    binds_d2lm (XML_NAMESPACE C) uri \<and> sr \<in> set (situation_records uri root) \<and>
    malformed_record W uri sr \<longrightarrow>
      raised_in_try W C \<noteq> None) \<and>
   (urlopen W (XML_URL C) = Response x \<and> parse_xml_data W x (XML_NAMESPACE C) = Inr (ds, ts) \<and>
    d \<in> set ds \<and> \<not> has_colon d \<longrightarrow>
      raised_in_try W C \<noteq> None)"
proof (intro conjI impI)
  assume "raised_in_try W C = Some e"
  then show "refresh W C s =
        ([], s\<lparr>last_updated :=
                  (case parsed_timestamp W C of None \<Rightarrow> last_updated s | Some t \<Rightarrow> Some t),
               success := Some False,
               error_message := Some (exc_type e @ '': '' @ exc_str e),
               traceback := TbList (format_tb W e)\<rparr>)"
    by (rule refresh_failure)
next
  show "exc_type e @ '': '' @ exc_str e \<noteq> []" by simp
next
  assume "urlopen W (XML_URL C) = URLError_raised reason"
  then show "raised_in_try W C =
        Some (Exc ''URLError''
                (''<urlopen error Failed to retrieve XML data from '' @ XML_URL C @ '': ''
                   @ reason @ ''>'') 94)"
    by (simp add: raised_in_try_def retrieve_xml_data_def)
next
  assume "urlopen W (XML_URL C) = Raised e'"
  then show "raised_in_try W C = Some e'"
    by (simp add: raised_in_try_def retrieve_xml_data_def)
next
  assume "urlopen W (XML_URL C) = Response x \<and> fromstring W x = Inl m"
  then show "raised_in_try W C = Some (Exc ''ParseError'' m 108)"
    by (simp add: raised_in_try_def retrieve_xml_data_def parse_xml_data_def)
next
  assume a: "urlopen W (XML_URL C) = Response x \<and> fromstring W x = Inr root \<and>
    binds_d2lm (XML_NAMESPACE C) uri \<and> sr \<in> set (situation_records uri root) \<and>
    malformed_record W uri sr"
  then have "isl (parse_xml_data W x (XML_NAMESPACE C))"
    using parse_fails_on_malformed[of W x root "XML_NAMESPACE C" uri sr] by simp
  then obtain e0 where "parse_xml_data W x (XML_NAMESPACE C) = Inl e0"
    by (auto simp: isl_def)
  then show "raised_in_try W C \<noteq> None"
    using a raised_by_parse[of W C x e0] by simp
next
  assume a: "urlopen W (XML_URL C) = Response x \<and>
    parse_xml_data W x (XML_NAMESPACE C) = Inr (ds, ts) \<and> d \<in> set ds \<and> \<not> has_colon d"
  have "isl (transform_record (unicode_alnum W) d)"
    using a
    by (auto simp: has_colon_def transform_record_def split_sep_short Let_def
        split: option.splits)
  then have "isl (transform_data_to_car_parks (unicode_alnum W) ds)"
    using a transform_fails_on by blast
  then obtain e0 where "transform_data_to_car_parks (unicode_alnum W) ds = Inl e0"
    by (auto simp: isl_def)
  then show "raised_in_try W C \<noteq> None"
    using a raised_by_transform[of W C x ds ts e0] by simp
qed

theorem refresh_contains_failure_witness:
  "urlopen (demo_world unreachable (Inr two_records)) (XML_URL demo_config) =
     URLError_raised ''[Errno -2] Name or service not known'' \<and>
   raised_in_try (demo_world unreachable (Inr two_records)) demo_config =
     Some (Exc ''URLError''
       (''<urlopen error Failed to retrieve XML data from https://example.org/carparks.xml: ''
          @ ''[Errno -2] Name or service not known>'') 94) \<and>
   refresh (demo_world unreachable (Inr two_records)) demo_config init =
     ([], \<lparr>last_updated = None, success = Some False,
           error_message = Some (''URLError: <urlopen error Failed to retrieve XML data from ''
             @ ''https://example.org/carparks.xml: [Errno -2] Name or service not known>''),
           traceback = TbList [''  File live_parking_norwich.py, in refresh'',
                               ''    raise URLError'']\<rparr>)"
proof -
  let ?W = "demo_world unreachable (Inr two_records)"
  let ?e = "Exc ''URLError''
       (''<urlopen error Failed to retrieve XML data from https://example.org/carparks.xml: ''
          @ ''[Errno -2] Name or service not known>'') 94"
  have h: "urlopen ?W (XML_URL demo_config) =
      URLError_raised ''[Errno -2] Name or service not known''"
    by (simp add: demo_defs)
  have r: "raised_in_try ?W demo_config = Some ?e"
    using refresh_contains_failure
      [of ?W demo_config ?e init "''[Errno -2] Name or service not known''"] h
    by (simp add: demo_config_def)
  have p: "parsed_timestamp ?W demo_config = None"
    by (simp add: parsed_timestamp_def retrieve_xml_data_def demo_defs)
  show ?thesis
    using refresh_contains_failure [of ?W demo_config ?e init] h r p
    by (simp add: demo_format_tb_def demo_world_def init_def)
qed

text \<open>
  Claim C4, as amended. There is no recovery per record: when any \<open>situationRecord\<close> under
  the payload path lacks one of its five required child elements, or has a numeric child
  (\<open>occupiedSpaces\<close>, \<open>totalCapacity\<close>, \<open>carParkOccupancy\<close>) without text or with a
  text that the conversion refuses, the parser fails as a whole, and \<open>refresh\<close> on such a
  feed returns no record at all and reports the failure with the parser's exception. A
  \<open>carParkIdentity\<close> or \<open>carParkStatus\<close> element that is present without text does not
  fail the parser: on a record that is well formed otherwise the loop body returns a raw record
  whose field is the text of the element, \<open>None\<close> when there is none.
\<close>

theorem malformed_record_aborts:
  assumes "fromstring W xml_data = Inr root"
    and "binds_d2lm (XML_NAMESPACE C) uri"
    and "sr \<in> set (situation_records uri root)"
    and "malformed_record W uri sr"
  shows "(\<exists>e. parse_xml_data W xml_data (XML_NAMESPACE C) = Inl e \<and>
           (urlopen W (XML_URL C) = Response xml_data \<longrightarrow>
              fst (refresh W C s) = [] \<and>
              success (snd (refresh W C s)) = Some False \<and>
              error_message (snd (refresh W C s)) = Some (exc_type e @ '': '' @ exc_str e) \<and>
              traceback (snd (refresh W C s)) = TbList (format_tb W e))) \<and>
         (well_formed_record W uri sr' \<longrightarrow>
            (\<exists>r. parse_situation_record W (XML_NAMESPACE C) sr' = Inr r \<and>
                 raw_identity r = field_text uri ''carParkIdentity'' sr' \<and>
                 raw_status r = field_text uri ''carParkStatus'' sr'))"
proof (intro conjI impI)
  have "isl (parse_xml_data W xml_data (XML_NAMESPACE C))"
    using assms by (rule parse_fails_on_malformed)
  then obtain e where e: "parse_xml_data W xml_data (XML_NAMESPACE C) = Inl e"
    by (auto simp: isl_def)
  show "\<exists>e. parse_xml_data W xml_data (XML_NAMESPACE C) = Inl e \<and>
           (urlopen W (XML_URL C) = Response xml_data \<longrightarrow>
              fst (refresh W C s) = [] \<and>
              success (snd (refresh W C s)) = Some False \<and>
              error_message (snd (refresh W C s)) = Some (exc_type e @ '': '' @ exc_str e) \<and>
              traceback (snd (refresh W C s)) = TbList (format_tb W e))"
  proof (rule exI[of _ e], intro conjI impI)
    show "parse_xml_data W xml_data (XML_NAMESPACE C) = Inl e" by (rule e)
  next
    assume u: "urlopen W (XML_URL C) = Response xml_data"
    have r: "refresh W C s =
        ([], s\<lparr>last_updated :=
                  (case parsed_timestamp W C of None \<Rightarrow> last_updated s | Some t \<Rightarrow> Some t),
               success := Some False,
               error_message := Some (exc_type e @ '': '' @ exc_str e),
               traceback := TbList (format_tb W e)\<rparr>)"
      using raised_by_parse[OF u e] by (rule refresh_failure)
    show "fst (refresh W C s) = []" by (simp add: r)
    show "success (snd (refresh W C s)) = Some False" by (simp add: r)
    show "error_message (snd (refresh W C s)) = Some (exc_type e @ '': '' @ exc_str e)"
      by (simp add: r)
    show "traceback (snd (refresh W C s)) = TbList (format_tb W e)" by (simp add: r)
  qed
next
  assume "well_formed_record W uri sr'"
  from parse_record_ok[OF assms(2) this]
  show "\<exists>r. parse_situation_record W (XML_NAMESPACE C) sr' = Inr r \<and>
            raw_identity r = field_text uri ''carParkIdentity'' sr' \<and>
            raw_status r = field_text uri ''carParkStatus'' sr'"
    by (auto simp: record_of_def)
qed

theorem malformed_record_aborts_witness:
  "fromstring (demo_world reachable (Inr second_record_bad)) ''<d2LogicalModel/>''
     = Inr second_record_bad \<and>
   binds_d2lm (XML_NAMESPACE demo_config) demo_uri \<and>
   situation_records demo_uri second_record_bad = [harford, st_andrews_no_occupancy] \<and>
   malformed_record (demo_world reachable (Inr second_record_bad)) demo_uri
     st_andrews_no_occupancy \<and>
   urlopen (demo_world reachable (Inr second_record_bad)) (XML_URL demo_config)
     = Response ''<d2LogicalModel/>'' \<and>
   fst (refresh (demo_world reachable (Inr second_record_bad)) demo_config init) = [] \<and>
   success (snd (refresh (demo_world reachable (Inr second_record_bad)) demo_config init))
     = Some False \<and>
   error_message (snd (refresh (demo_world reachable (Inr second_record_bad)) demo_config init))
     = Some (''AttributeError: '' @ no_attribute ''text'') \<and>
   well_formed_record (demo_world reachable (Inr second_record_bad)) demo_uri
     st_andrews_empty_status \<and>
   parse_situation_record (demo_world reachable (Inr second_record_bad))
       (XML_NAMESPACE demo_config) st_andrews_empty_status =
     Inr \<lparr>raw_identity = Some ''St Andrews:CPN0001'', raw_status = None,
          raw_occupied_spaces = 1084, raw_total_capacity = 1080, raw_occupancy = ''100.0''\<rparr>"
proof -
  let ?W = "demo_world reachable (Inr second_record_bad)"
  have h1: "fromstring ?W ''<d2LogicalModel/>'' = Inr second_record_bad"
    by (simp add: demo_world_def always_def)
  have h2: "binds_d2lm (XML_NAMESPACE demo_config) demo_uri"
    by (simp add: binds_d2lm_def plain_uri_def demo_config_def demo_uri_def)
  have recs: "situation_records demo_uri second_record_bad
                = [harford, st_andrews_no_occupancy]"
    by (simp add: demo_defs feed_defs)
  have h3: "st_andrews_no_occupancy \<in> set (situation_records demo_uri second_record_bad)"
    by (simp add: recs)
  have h4: "malformed_record ?W demo_uri st_andrews_no_occupancy"
    by (simp add: demo_defs feed_defs)
  have u: "urlopen ?W (XML_URL demo_config) = Response ''<d2LogicalModel/>''"
    by (simp add: demo_defs)
  have p: "parse_xml_data ?W ''<d2LogicalModel/>'' (XML_NAMESPACE demo_config)
             = Inl (Exc ''AttributeError'' (no_attribute ''text'') 125)"
    by (simp add: demo_defs pipeline_defs)
  from malformed_record_aborts [OF h1 h2 h3 h4, THEN conjunct1, of init] u p
  have a: "fst (refresh ?W demo_config init) = [] \<and>
        success (snd (refresh ?W demo_config init)) = Some False \<and>
        error_message (snd (refresh ?W demo_config init))
          = Some (''AttributeError: '' @ no_attribute ''text'')"
    by auto
  have w: "well_formed_record ?W demo_uri st_andrews_empty_status"
    by (simp add: demo_defs feed_defs)
  from malformed_record_aborts [OF h1 h2 h3 h4, THEN conjunct2, of st_andrews_empty_status] w
  obtain r where r: "parse_situation_record ?W (XML_NAMESPACE demo_config)
      st_andrews_empty_status = Inr r"
    by blast
  have b: "parse_situation_record ?W (XML_NAMESPACE demo_config) st_andrews_empty_status =
     Inr \<lparr>raw_identity = Some ''St Andrews:CPN0001'', raw_status = None,
          raw_occupied_spaces = 1084, raw_total_capacity = 1080, raw_occupancy = ''100.0''\<rparr>"
    by (simp add: demo_defs pipeline_defs)
  show ?thesis using h1 h2 recs h4 u a w b by simp
qed

text \<open>
  Claim C4, as stated, fails: in this feed the second record has a \<open>carParkStatus\<close> element
  without a text node. The parser reads \<open>None\<close> and goes on, and \<open>refresh\<close> succeeds and
  returns both records.
\<close>

theorem empty_status_does_not_abort:
  "child demo_uri ''carParkStatus'' st_andrews_empty_status = Some (empty_leaf ''carParkStatus'') \<and>
   elem_text (empty_leaf ''carParkStatus'') = None \<and>
   situation_records demo_uri second_status_empty = [harford, st_andrews_empty_status] \<and>
   parse_xml_data (demo_world reachable (Inr second_status_empty)) ''<d2LogicalModel/>''
       (XML_NAMESPACE demo_config) =
     Inr ([\<lparr>raw_identity = Some ''Harford, Ipswich Road, Nor:CPN0015'',
             raw_status = Some ''enoughSpacesAvailable'', raw_occupied_spaces = 120,
             raw_total_capacity = 500, raw_occupancy = ''24.0''\<rparr>,
           \<lparr>raw_identity = Some ''St Andrews:CPN0001'',
             raw_status = None, raw_occupied_spaces = 1084,
             raw_total_capacity = 1080, raw_occupancy = ''100.0''\<rparr>],
          ''2024-03-01T12:00:00'') \<and>
   refresh (demo_world reachable (Inr second_status_empty)) demo_config init =
     ([\<lparr>code = ''CPN0015'', name = ''Harford, Ipswich Road, Norwich'',
        status = Some ''enoughSpacesAvailable'', occupied_spaces = 120,
        remaining_spaces = 380, total_capacity = 500, occupancy = ''24.0''\<rparr>,
       \<lparr>code = ''CPN0001'', name = ''St Andrews'', status = None,
        occupied_spaces = 1084, remaining_spaces = - 4, total_capacity = 1080,
        occupancy = ''100.0''\<rparr>],
      \<lparr>last_updated = Some ''2024-03-01T12:00:00'', success = Some True,
        error_message = Some [], traceback = TbStr []\<rparr>)"
proof (intro conjI)
  show "child demo_uri ''carParkStatus'' st_andrews_empty_status
          = Some (empty_leaf ''carParkStatus'')"
    by (simp add: demo_defs feed_defs)
  show "elem_text (empty_leaf ''carParkStatus'') = None"
    by (simp add: empty_leaf_def)
  show "situation_records demo_uri second_status_empty = [harford, st_andrews_empty_status]"
    by (simp add: demo_defs feed_defs)
  show "parse_xml_data (demo_world reachable (Inr second_status_empty)) ''<d2LogicalModel/>''
       (XML_NAMESPACE demo_config) =
     Inr ([\<lparr>raw_identity = Some ''Harford, Ipswich Road, Nor:CPN0015'',
             raw_status = Some ''enoughSpacesAvailable'', raw_occupied_spaces = 120,
             raw_total_capacity = 500, raw_occupancy = ''24.0''\<rparr>,
           \<lparr>raw_identity = Some ''St Andrews:CPN0001'',
             raw_status = None, raw_occupied_spaces = 1084,
             raw_total_capacity = 1080, raw_occupancy = ''100.0''\<rparr>],
          ''2024-03-01T12:00:00'')"
    by (simp add: demo_defs pipeline_defs)
  show "refresh (demo_world reachable (Inr second_status_empty)) demo_config init =
     ([\<lparr>code = ''CPN0015'', name = ''Harford, Ipswich Road, Norwich'',
        status = Some ''enoughSpacesAvailable'', occupied_spaces = 120,
        remaining_spaces = 380, total_capacity = 500, occupancy = ''24.0''\<rparr>,
       \<lparr>code = ''CPN0001'', name = ''St Andrews'', status = None,
        occupied_spaces = 1084, remaining_spaces = - 4, total_capacity = 1080,
        occupancy = ''100.0''\<rparr>],
      \<lparr>last_updated = Some ''2024-03-01T12:00:00'', success = Some True,
        error_message = Some [], traceback = TbStr []\<rparr>)"
    by (simp add: demo_defs pipeline_defs repair_eval)
qed

text \<open>
  Claim C6. A raw record whose identity is a string without a colon makes the loop body raise
  IndexError at line 148; a list whose earlier records transform raises that exception, any
  list holding such a record fails, and when the parser hands such a list to \<open>refresh\<close> the
  call returns the empty list with \<open>success = False\<close> and a message.
\<close>

theorem identity_without_colon:
  assumes "raw_identity d = Some ident" and "CHR '':'' \<notin> set ident"
  shows "transform_data_to_car_parks uw [d]
           = Inl (Exc ''IndexError'' ''list index out of range'' 148) \<and>
         (list_all (\<lambda>x. \<not> isl (transform_record uw x)) pre \<longrightarrow>
            transform_data_to_car_parks uw (pre @ d # post)
              = Inl (Exc ''IndexError'' ''list index out of range'' 148)) \<and>
         (d \<in> set ds \<longrightarrow> isl (transform_data_to_car_parks uw ds)) \<and>
         (urlopen W (XML_URL C) = Response x \<and>
          parse_xml_data W x (XML_NAMESPACE C) = Inr (ds, ts) \<and> d \<in> set ds \<longrightarrow>
            fst (refresh W C s) = [] \<and>
            success (snd (refresh W C s)) = Some False \<and>
            (\<exists>e. transform_data_to_car_parks (unicode_alnum W) ds = Inl e \<and>
                 error_message (snd (refresh W C s)) = Some (exc_type e @ '': '' @ exc_str e)))"
proof (intro conjI impI)
  have rec: "transform_record u d = Inl (Exc ''IndexError'' ''list index out of range'' 148)"
    for u
    using assms by (rule transform_record_no_colon)
  show "transform_data_to_car_parks uw [d]
          = Inl (Exc ''IndexError'' ''list index out of range'' 148)"
    by (simp add: transform_data_to_car_parks_def rec)
  show "transform_data_to_car_parks uw (pre @ d # post)
          = Inl (Exc ''IndexError'' ''list index out of range'' 148)"
    if "list_all (\<lambda>x. \<not> isl (transform_record uw x)) pre"
    using that rec by (rule transform_first_failure)
  show "isl (transform_data_to_car_parks uw ds)" if "d \<in> set ds"
    using that by (rule transform_fails_on) (simp add: rec)
  assume a: "urlopen W (XML_URL C) = Response x \<and>
          parse_xml_data W x (XML_NAMESPACE C) = Inr (ds, ts) \<and> d \<in> set ds"
  then have "isl (transform_data_to_car_parks (unicode_alnum W) ds)"
    by (intro transform_fails_on[of d]) (simp_all add: rec)
  then obtain e where e: "transform_data_to_car_parks (unicode_alnum W) ds = Inl e"
    by (auto simp: isl_def)
  have r: "refresh W C s =
        ([], s\<lparr>last_updated :=
                  (case parsed_timestamp W C of None \<Rightarrow> last_updated s | Some t \<Rightarrow> Some t),
               success := Some False,
               error_message := Some (exc_type e @ '': '' @ exc_str e),
               traceback := TbList (format_tb W e)\<rparr>)"
    using a e by (intro refresh_failure raised_by_transform[of W C x ds ts]) simp_all
  show "fst (refresh W C s) = []" by (simp add: r)
  show "success (snd (refresh W C s)) = Some False" by (simp add: r)
  show "\<exists>e. transform_data_to_car_parks (unicode_alnum W) ds = Inl e \<and>
            error_message (snd (refresh W C s)) = Some (exc_type e @ '': '' @ exc_str e)"
    by (rule exI[of _ e]) (simp add: r e)
qed

theorem identity_without_colon_witness:
  "CHR '':'' \<notin> set ''NoColonHere'' \<and>
   transform_data_to_car_parks ascii_only
     [\<lparr>raw_identity = Some ''NoColonHere'', raw_status = Some ''enoughSpacesAvailable'',
       raw_occupied_spaces = 1, raw_total_capacity = 2, raw_occupancy = ''50.0''\<rparr>]
     = Inl (Exc ''IndexError'' ''list index out of range'' 148) \<and>
   refresh (demo_world reachable (Inr (demo_feed [node ''situation'' [harford, no_colon_here]])))
       demo_config init =
     ([], \<lparr>last_updated = Some ''2024-03-01T12:00:00'', success = Some False,
           error_message = Some ''IndexError: list index out of range'',
           traceback = TbList [''  File live_parking_norwich.py, in refresh'',
                               ''    raise IndexError'']\<rparr>)"
proof -
  let ?d = "\<lparr>raw_identity = Some ''NoColonHere'', raw_status = Some ''enoughSpacesAvailable'',
       raw_occupied_spaces = 1, raw_total_capacity = 2, raw_occupancy = ''50.0''\<rparr>"
  have h1: "raw_identity ?d = Some ''NoColonHere''" by simp
  have h2: "CHR '':'' \<notin> set ''NoColonHere''" by simp
  have t: "transform_data_to_car_parks ascii_only [?d]
             = Inl (Exc ''IndexError'' ''list index out of range'' 148)"
    using identity_without_colon [OF h1 h2, THEN conjunct1, of ascii_only] by simp
  have r: "refresh
       (demo_world reachable (Inr (demo_feed [node ''situation'' [harford, no_colon_here]])))
       demo_config init =
     ([], \<lparr>last_updated = Some ''2024-03-01T12:00:00'', success = Some False,
           error_message = Some ''IndexError: list index out of range'',
           traceback = TbList [''  File live_parking_norwich.py, in refresh'',
                               ''    raise IndexError'']\<rparr>)"
    by (simp add: demo_defs pipeline_defs repair_eval)
  show ?thesis using h2 t r by simp
qed

text \<open>
  Claim C10. A feed whose publication time parses and that has no \<open>situation\<close> element
  under the payload path, or only situations without a \<open>situationRecord\<close> child, parses
  to the empty list of records, and \<open>refresh\<close> on it returns the empty list with
  \<open>success = True\<close> and the empty error message: the empty result alone does not tell a
  failure, and the absent elements are not missing required elements.
\<close>

theorem empty_feed_succeeds:
  assumes "fromstring W xml_data = Inr root"
    and "binds_d2lm (XML_NAMESPACE C) uri"
    and "publication_time uri root = Some txt"
    and "strptime W txt = Inr ts"
    and "situations uri root = [] \<or>
         list_all (\<lambda>sit. children_named uri ''situationRecord'' sit = []) (situations uri root)"
  shows "parse_xml_data W xml_data (XML_NAMESPACE C) = Inr ([], ts) \<and>
         (urlopen W (XML_URL C) = Response xml_data \<longrightarrow>
            refresh W C s =
              ([], s\<lparr>last_updated := Some ts, success := Some True, error_message := Some [],
                     traceback := TbStr []\<rparr>))"
proof -
  have none: "concat (map (children_named uri ''situationRecord'') (situations uri root)) = []"
    using assms(5) by (auto simp: list_all_iff)
  from parse_situations_ok[OF assms(2), of W "situations uri root" "[]"]
  have "parse_situations W (XML_NAMESPACE C) [] (situations uri root) = Inr []"
    by (simp add: none)
  then have p: "parse_xml_data W xml_data (XML_NAMESPACE C) = Inr ([], ts)"
    by (simp add: parse_xml_data_head[OF assms(1-4)])
  have "refresh W C s =
          ([], s\<lparr>last_updated := Some ts, success := Some True, error_message := Some [],
                 traceback := TbStr []\<rparr>)"
    if "urlopen W (XML_URL C) = Response xml_data"
    using that p
    by (simp add: refresh_def retrieve_xml_data_def transform_data_to_car_parks_def)
  with p show ?thesis by simp
qed

theorem empty_feed_succeeds_witness:
  "fromstring (demo_world reachable (Inr no_situations)) ''<d2LogicalModel/>''
     = Inr no_situations \<and>
   binds_d2lm (XML_NAMESPACE demo_config) demo_uri \<and>
   publication_time demo_uri no_situations = Some ''2024-03-01T12:00:00'' \<and>
   strptime (demo_world reachable (Inr no_situations)) ''2024-03-01T12:00:00''
     = Inr ''2024-03-01T12:00:00'' \<and>
   situations demo_uri no_situations = [] \<and>
   urlopen (demo_world reachable (Inr no_situations)) (XML_URL demo_config)
     = Response ''<d2LogicalModel/>'' \<and>
   refresh (demo_world reachable (Inr no_situations)) demo_config init =
     ([], \<lparr>last_updated = Some ''2024-03-01T12:00:00'', success = Some True,
           error_message = Some [], traceback = TbStr []\<rparr>)"
proof -
  let ?W = "demo_world reachable (Inr no_situations)"
  have h1: "fromstring ?W ''<d2LogicalModel/>'' = Inr no_situations"
    by (simp add: demo_world_def always_def)
  have h2: "binds_d2lm (XML_NAMESPACE demo_config) demo_uri"
    by (simp add: binds_d2lm_def plain_uri_def demo_config_def demo_uri_def)
  have h3: "publication_time demo_uri no_situations = Some ''2024-03-01T12:00:00''"
    by (simp add: demo_defs feed_defs)
  have h4: "strptime ?W ''2024-03-01T12:00:00'' = Inr ''2024-03-01T12:00:00''"
    by (simp add: demo_defs)
  have h5: "situations demo_uri no_situations = []"
    by (simp add: demo_defs feed_defs)
  have u: "urlopen ?W (XML_URL demo_config) = Response ''<d2LogicalModel/>''"
    by (simp add: demo_defs)
  from empty_feed_succeeds [OF h1 h2 h3 h4 disjI1[OF h5], of init] u
  have "refresh ?W demo_config init =
     ([], \<lparr>last_updated = Some ''2024-03-01T12:00:00'', success = Some True,
           error_message = Some [], traceback = TbStr []\<rparr>)"
    by (simp add: init_def)
  then show ?thesis using h1 h2 h3 h4 h5 u by simp
qed

text \<open>
  Claim C7. On a call in which nothing raises, \<open>refresh\<close> returns the transformed records,
  sets \<open>success\<close> to \<open>True\<close>, the error message to the empty string and \<open>last_updated\<close>
  to the parsed publication time. The traceback, though, is assigned the empty string of line
  185, not an empty list of strings, while the accessor is declared to return
  \<open>list[str]\<close> and the handler assigns a list.
\<close>

theorem success_sets_string_traceback:
  assumes "raised_in_try W C = None"
  shows "\<exists>x ds ts cs.
           retrieve_xml_data W (XML_URL C) = Inr x \<and>
           parse_xml_data W x (XML_NAMESPACE C) = Inr (ds, ts) \<and>
           transform_data_to_car_parks (unicode_alnum W) ds = Inr cs \<and>
           fst (refresh W C s) = cs \<and>
           success (snd (refresh W C s)) = Some True \<and>
           error_message (snd (refresh W C s)) = Some [] \<and>
           last_updated (snd (refresh W C s)) = Some ts \<and>
           traceback (snd (refresh W C s)) = TbStr [] \<and>
           traceback (snd (refresh W C s)) \<noteq> TbList []"
proof -
  from refresh_success[OF assms, of s] obtain x ds ts cs where
    a: "retrieve_xml_data W (XML_URL C) = Inr x"
       "parse_xml_data W x (XML_NAMESPACE C) = Inr (ds, ts)"
       "transform_data_to_car_parks (unicode_alnum W) ds = Inr cs"
       "refresh W C s =
         (cs, s\<lparr>last_updated := Some ts, success := Some True, error_message := Some [],
                 traceback := TbStr []\<rparr>)"
    by blast
  show ?thesis
    by (rule exI[of _ x], rule exI[of _ ds], rule exI[of _ ts], rule exI[of _ cs])
      (simp add: a)
qed

theorem success_sets_string_traceback_witness:
  "raised_in_try (demo_world reachable (Inr two_records)) demo_config = None \<and>
   refresh (demo_world reachable (Inr two_records)) demo_config init =
     ([\<lparr>code = ''CPN0015'', name = ''Harford, Ipswich Road, Norwich'',
        status = Some ''enoughSpacesAvailable'', occupied_spaces = 120,
        remaining_spaces = 380, total_capacity = 500, occupancy = ''24.0''\<rparr>,
       \<lparr>code = ''CPN0001'', name = ''St Andrews'', status = Some ''carParkFull'',
        occupied_spaces = 1084, remaining_spaces = - 4, total_capacity = 1080,
        occupancy = ''100.0''\<rparr>],
      \<lparr>last_updated = Some ''2024-03-01T12:00:00'', success = Some True,
        error_message = Some [], traceback = TbStr []\<rparr>) \<and>
   traceback (snd (refresh (demo_world reachable (Inr two_records)) demo_config init))
     \<noteq> TbList []"
proof -
  let ?W = "demo_world reachable (Inr two_records)"
  have r: "refresh ?W demo_config init =
     ([\<lparr>code = ''CPN0015'', name = ''Harford, Ipswich Road, Norwich'',
        status = Some ''enoughSpacesAvailable'', occupied_spaces = 120,
        remaining_spaces = 380, total_capacity = 500, occupancy = ''24.0''\<rparr>,
       \<lparr>code = ''CPN0001'', name = ''St Andrews'', status = Some ''carParkFull'',
        occupied_spaces = 1084, remaining_spaces = - 4, total_capacity = 1080,
        occupancy = ''100.0''\<rparr>],
      \<lparr>last_updated = Some ''2024-03-01T12:00:00'', success = Some True,
        error_message = Some [], traceback = TbStr []\<rparr>)"
    by (simp add: demo_defs pipeline_defs repair_eval)
  have h: "raised_in_try ?W demo_config = None"
    by (simp add: raised_in_try_def demo_defs pipeline_defs repair_eval)
  from success_sets_string_traceback [OF h, of init]
  have "traceback (snd (refresh ?W demo_config init)) \<noteq> TbList []"
    by blast
  then show ?thesis using h r by simp
qed

text \<open>
  Claim C8, as amended. Every call overwrites \<open>success\<close>, \<open>error_message\<close> and
  \<open>traceback\<close>: these and the returned list do not depend on the attributes before the
  call. \<open>last_updated\<close> is overwritten only by a call whose fetch and parse succeed, with the
  parsed publication time (also when the transformation fails afterwards); any other call
  leaves it as it was.
\<close>

theorem refresh_overwrites:
  "fst (refresh W C s) = fst (refresh W C s') \<and>
   success (snd (refresh W C s)) = success (snd (refresh W C s')) \<and>
   error_message (snd (refresh W C s)) = error_message (snd (refresh W C s')) \<and>
   traceback (snd (refresh W C s)) = traceback (snd (refresh W C s')) \<and>
   last_updated (snd (refresh W C s)) =
     (case parsed_timestamp W C of None \<Rightarrow> last_updated s | Some t \<Rightarrow> Some t)"
  by (auto simp: parsed_timestamp_def refresh_def set_failure_def Let_def
      split: sum.splits prod.splits)

theorem refresh_overwrites_witness:
  "success (snd (refresh (demo_world unreachable (Inr two_records)) demo_config after_success))
     = success (snd (refresh (demo_world unreachable (Inr two_records)) demo_config init)) \<and>
   success (snd (refresh (demo_world unreachable (Inr two_records)) demo_config after_success))
     = Some False \<and>
   parsed_timestamp (demo_world unreachable (Inr two_records)) demo_config = None \<and>
   last_updated
     (snd (refresh (demo_world unreachable (Inr two_records)) demo_config after_success))
     = last_updated after_success"
proof -
  let ?W = "demo_world unreachable (Inr two_records)"
  have p: "parsed_timestamp ?W demo_config = None"
    by (simp add: parsed_timestamp_def retrieve_xml_data_def demo_defs)
  have f: "success (snd (refresh ?W demo_config init)) = Some False"
    by (simp add: refresh_def set_failure_def retrieve_xml_data_def demo_defs)
  show ?thesis
    using refresh_overwrites [of ?W demo_config after_success init] p f by simp
qed

text \<open>
  Claim C8, as stated, fails: after a successful call, a call whose fetch fails leaves
  \<open>last_updated\<close> at the timestamp of the earlier call, while the same failing call on a
  fresh instance leaves it unset. The attribute after the call depends on the earlier call.
\<close>

theorem failing_call_keeps_last_updated:
  "last_updated after_success = Some ''2024-03-01T12:00:00'' \<and>
   success (snd (refresh (demo_world unreachable (Inr two_records)) demo_config after_success))
     = Some False \<and>
   last_updated
     (snd (refresh (demo_world unreachable (Inr two_records)) demo_config after_success))
     = Some ''2024-03-01T12:00:00'' \<and>
   last_updated (snd (refresh (demo_world unreachable (Inr two_records)) demo_config init))
     = None"
proof -
  have a: "after_success =
      \<lparr>last_updated = Some ''2024-03-01T12:00:00'', success = Some True,
        error_message = Some [], traceback = TbStr []\<rparr>"
    unfolding after_success_def by (simp add: demo_defs pipeline_defs repair_eval)
  show ?thesis
    unfolding a by (simp add: refresh_def set_failure_def retrieve_xml_data_def demo_defs)
qed

end
